theory Spec2Isabelle
  imports Complex_Main "HOL-Library.Word" "HOL-Library.Log_Nat"
begin

section \<open>Finite-difference sensitivity cache and rollout engine of diff_sim\<close>

text \<open>
  The development embeds three source files: \<^verbatim>\<open>diff_sim/traj_opt/policy.py\<close>
  (the finite-difference cache and the step function with a custom backward pass),
  \<^verbatim>\<open>diff_sim/simulate.py\<close> (the batched rollout) and
  \<^verbatim>\<open>contexts/meta_context.py\<close> (the configuration context).

  Floating-point numbers are modelled as \<^typ>\<open>real\<close>, so NaN, infinities and
  the rounding of floating-point arithmetic are outside the model. Integer arrays hold
  32-bit or 64-bit machine integers, and the conversions between integers and floats
  saturate and round as the machine does. Arrays are modelled by their row-major
  element lists; a reshape does not change that list.
\<close>

subsection \<open>Python exceptions\<close>

datatype error = ValueError | ShapeError | AssertionError

definition rbind :: "error + 'a \<Rightarrow> ('a \<Rightarrow> error + 'b) \<Rightarrow> error + 'b" where
  "rbind m f = (case m of Inl e \<Rightarrow> Inl e | Inr x \<Rightarrow> f x)"

text \<open>\<^verbatim>\<open>jax.vmap\<close> of a function over the leading axis: the function is applied to
  every element on its own; an exception in any application aborts the whole call.\<close>

fun vmap :: "('a \<Rightarrow> error + 'b) \<Rightarrow> 'a list \<Rightarrow> error + 'b list" where
  "vmap f [] = Inr []"
| "vmap f (x # xs) = rbind (f x) (\<lambda>y. rbind (vmap f xs) (\<lambda>ys. Inr (y # ys)))"

subsection \<open>Pytrees: the state as JAX sees it\<close>

text \<open>
  \<^verbatim>\<open>policy.py\<close> touches \<^verbatim>\<open>mjx.Data\<close> only through JAX's pytree interface
  (\<^verbatim>\<open>tree_leaves_with_path\<close>, \<^verbatim>\<open>ravel_pytree\<close>, \<^verbatim>\<open>tree_map\<close>). A pytree is
  modelled by the list of its leaves with their paths, in the canonical traversal
  order. A leaf is an array of floats, of 32-bit integers or of 64-bit integers; an
  integer entry \<open>w\<close> has the value \<open>sint w\<close>.
\<close>

datatype key = GetAttrKey string | SequenceKey nat | DictKey string

type_synonym path = "key list"

datatype dtype = Float64 | Int32 | Int64

datatype array = FloatArr "real list" | Int32Arr "32 word list" | Int64Arr "64 word list"

type_synonym pytree = "(path \<times> array) list"

fun size_arr :: "array \<Rightarrow> nat" where
  "size_arr (FloatArr xs) = length xs"
| "size_arr (Int32Arr ws) = length ws"
| "size_arr (Int64Arr ws) = length ws"

fun dtype_of :: "array \<Rightarrow> dtype" where
  "dtype_of (FloatArr xs) = Float64"
| "dtype_of (Int32Arr ws) = Int32"
| "dtype_of (Int64Arr ws) = Int64"

text \<open>\<^verbatim>\<open>jnp.zeros_like\<close>: same dtype and shape, all entries zero.\<close>

fun zeros_like :: "array \<Rightarrow> array" where
  "zeros_like (FloatArr xs) = FloatArr (replicate (length xs) 0)"
| "zeros_like (Int32Arr ws) = Int32Arr (replicate (length ws) 0)"
| "zeros_like (Int64Arr ws) = Int64Arr (replicate (length ws) 0)"

text \<open>The structure of a tree: the path, dtype and size of every leaf.\<close>

definition tree_shape :: "pytree \<Rightarrow> (path \<times> dtype \<times> nat) list" where
  "tree_shape t = map (\<lambda>(p, a). (p, dtype_of a, size_arr a)) t"

subsection \<open>\<^verbatim>\<open>ravel_pytree\<close>\<close>

text \<open>
  \<^verbatim>\<open>jax.flatten_util.ravel_pytree\<close> is a library function: every leaf is converted
  to the common result dtype, raveled, and the pieces are concatenated. The state has
  float leaves and \<^verbatim>\<open>policy.py\<close> enables 64-bit mode, so the common dtype is
  \<^verbatim>\<open>float64\<close>. A 32-bit integer converts exactly; a 64-bit integer is rounded to the
  nearest \<^verbatim>\<open>float64\<close>, ties to even. The returned \<^verbatim>\<open>unravel\<close> closure splits a flat
  vector at the cumulative leaf sizes and converts each chunk back to the dtype of its
  leaf; the conversion from float to integer truncates towards zero and saturates at the
  bounds of the integer type. It raises when the vector does not have the total size.
\<close>

text \<open>The nearest \<^verbatim>\<open>float64\<close> of an integer: the magnitude keeps its 53 leading bits,
  rounded to nearest, ties to even.\<close>

definition round_f64 :: "int \<Rightarrow> int" where
  "round_f64 n =
     (let a = \<bar>n\<bar>;
          e = nat (bitlen a - 53);
          q = a div 2 ^ e;
          r = a mod 2 ^ e;
          q' = (if 2 * r > 2 ^ e \<or> (2 * r = 2 ^ e \<and> odd q) then q + 1 else q)
      in sgn n * (q' * 2 ^ e))"

definition trunc :: "real \<Rightarrow> int" where
  "trunc r = (if 0 \<le> r then \<lfloor>r\<rfloor> else \<lceil>r\<rceil>)"

text \<open>Saturation at the bounds of the signed \<open>w\<close>-bit integers.\<close>

definition saturate :: "nat \<Rightarrow> int \<Rightarrow> int" where
  "saturate w z = max (- (2 ^ (w - 1))) (min (2 ^ (w - 1) - 1) z)"

fun ravel_leaf :: "array \<Rightarrow> real list" where
  "ravel_leaf (FloatArr xs) = xs"
| "ravel_leaf (Int32Arr ws) = map (\<lambda>w. of_int (sint w)) ws"
| "ravel_leaf (Int64Arr ws) = map (\<lambda>w. of_int (round_f64 (sint w))) ws"

definition ravel :: "pytree \<Rightarrow> real list" where
  "ravel t = concat (map (\<lambda>(p, a). ravel_leaf a) t)"

fun convert_like :: "array \<Rightarrow> real list \<Rightarrow> array" where
  "convert_like (FloatArr xs) v = FloatArr v"
| "convert_like (Int32Arr ws) v = Int32Arr (map (\<lambda>x. word_of_int (saturate 32 (trunc x))) v)"
| "convert_like (Int64Arr ws) v = Int64Arr (map (\<lambda>x. word_of_int (saturate 64 (trunc x))) v)"

fun unravel_list :: "pytree \<Rightarrow> real list \<Rightarrow> pytree" where
  "unravel_list [] v = []"
| "unravel_list ((p, a) # t) v =
     (p, convert_like a (take (size_arr a) v)) # unravel_list t (drop (size_arr a) v)"

definition unravel_pytree :: "pytree \<Rightarrow> real list \<Rightarrow> error + pytree" where
  "unravel_pytree ref v =
     (if length v = length (ravel ref) then Inr (unravel_list ref v) else Inl ShapeError)"

text \<open>The dtype of the leaf at every flat position, and what a flat entry becomes when
  it is converted to that dtype and back to \<^verbatim>\<open>float64\<close>.\<close>

definition dtype_positions :: "pytree \<Rightarrow> dtype list" where
  "dtype_positions t = concat (map (\<lambda>(p, a). replicate (size_arr a) (dtype_of a)) t)"

fun cast_roundtrip :: "dtype \<Rightarrow> real \<Rightarrow> real" where
  "cast_roundtrip Float64 x = x"
| "cast_roundtrip Int32 x = of_int (saturate 32 (trunc x))"
| "cast_roundtrip Int64 x = of_int (round_f64 (saturate 64 (trunc x)))"

definition retyped :: "pytree \<Rightarrow> real list \<Rightarrow> real list" where
  "retyped ref v = map2 cast_roundtrip (dtype_positions ref) v"

text \<open>A flat entry that a leaf of the dtype can hold: any float; an integer within the
  bounds of the integer type that is also a \<^verbatim>\<open>float64\<close>.\<close>

fun representable :: "dtype \<Rightarrow> real \<Rightarrow> bool" where
  "representable Float64 x = True"
| "representable Int32 x =
     (of_int (trunc x) = x \<and> - (2 ^ 31) \<le> trunc x \<and> trunc x < 2 ^ 31)"
| "representable Int64 x =
     (of_int (trunc x) = x \<and> - (2 ^ 63) \<le> trunc x \<and> trunc x < 2 ^ 63
        \<and> round_f64 (trunc x) = trunc x)"

text \<open>A state whose 64-bit integer entries are \<^verbatim>\<open>float64\<close> numbers (every integer of
  magnitude below \<open>2^53\<close> is).\<close>

fun int64_exact_leaf :: "array \<Rightarrow> bool" where
  "int64_exact_leaf (FloatArr xs) = True"
| "int64_exact_leaf (Int32Arr ws) = True"
| "int64_exact_leaf (Int64Arr ws) = list_all (\<lambda>w. round_f64 (sint w) = sint w) ws"

definition int64_exact :: "pytree \<Rightarrow> bool" where
  "int64_exact t = list_all (\<lambda>(p, a). int64_exact_leaf a) t"

subsection \<open>The finite-difference cache (\<^verbatim>\<open>build_fd_cache\<close>)\<close>

record FDCache =
  unravel_dx :: "real list \<Rightarrow> error + pytree"
  sensitivity_mask :: "real list"
  inner_idx :: "nat list"
  dx_size :: nat
  num_u_dims :: nat
  eps :: real

text \<open>\<^verbatim>\<open>np.cumsum\<close>.\<close>

fun cumsum_from :: "nat \<Rightarrow> nat list \<Rightarrow> nat list" where
  "cumsum_from acc [] = []"
| "cumsum_from acc (x # xs) = (acc + x) # cumsum_from (acc + x) xs"

definition cumsum :: "nat list \<Rightarrow> nat list" where
  "cumsum xs = cumsum_from 0 xs"

text \<open>\<^verbatim>\<open>getattr(level, 'name', None)\<close>: only attribute keys carry a name.\<close>

fun key_name :: "key \<Rightarrow> string option" where
  "key_name (GetAttrKey n) = Some n"
| "key_name (SequenceKey i) = None"
| "key_name (DictKey k) = None"

definition name_matches :: "string set \<Rightarrow> path \<Rightarrow> bool" where
  "name_matches target_fields p =
     list_ex (\<lambda>level. case key_name level of None \<Rightarrow> False | Some n \<Rightarrow> n \<in> target_fields) p"

definition leaf_index_range :: "nat list \<Rightarrow> nat \<Rightarrow> nat list" where
  "leaf_index_range indices leaf_idx =
     (let start = (if leaf_idx = 0 then 0 else indices ! (leaf_idx - 1));
          end = indices ! leaf_idx
      in [start ..< end])"

text \<open>\<^verbatim>\<open>np.concatenate\<close> raises \<^verbatim>\<open>ValueError\<close> on an empty sequence of arrays.\<close>

definition np_concatenate :: "'a list list \<Rightarrow> error + 'a list" where
  "np_concatenate xss = (if xss = [] then Inl ValueError else Inr (concat xss))"

text \<open>\<^verbatim>\<open>x.at[idxs].set(v)\<close> with an index array and a scalar; an index out of
  bounds is dropped, as JAX does for scatter updates.\<close>

definition at_set :: "'a list \<Rightarrow> nat list \<Rightarrow> 'a \<Rightarrow> 'a list" where
  "at_set xs idxs v = fold (\<lambda>i acc. acc[i := v]) idxs xs"

definition default_target_fields :: "string set" where
  "default_target_fields = {''qpos'', ''qvel'', ''ctrl''}"

definition build_fd_cache ::
  "pytree \<Rightarrow> real list \<Rightarrow> string set option \<Rightarrow> real \<Rightarrow> error + FDCache" where
  "build_fd_cache dx_ref u_ref target_fields eps' =
     (let target_fields = (case target_fields of None \<Rightarrow> default_target_fields | Some T \<Rightarrow> T);
          dx_array = ravel dx_ref;
          dx_size' = length dx_array;
          u_ref_flat = u_ref;
          num_u_dims' = length u_ref_flat;
          leaves_with_path = dx_ref;
          sizes = map (\<lambda>(p, leaf). size_arr leaf) leaves_with_path;
          indices = cumsum sizes;
          idx_target_state =
            filter (\<lambda>i. name_matches target_fields (fst (leaves_with_path ! i)))
              [0 ..< length leaves_with_path];
          inner_idx_list = map (leaf_index_range indices) idx_target_state
      in rbind (np_concatenate inner_idx_list) (\<lambda>inner_idx'.
           Inr \<lparr> unravel_dx = unravel_pytree dx_ref,
                 sensitivity_mask = at_set (replicate (length dx_array) 0) inner_idx' 1,
                 inner_idx = inner_idx',
                 dx_size = dx_size',
                 num_u_dims = num_u_dims',
                 eps = eps' \<rparr>))"

text \<open>Where leaf \<open>i\<close> begins in the flat vector.\<close>

definition leaf_start :: "pytree \<Rightarrow> nat \<Rightarrow> nat" where
  "leaf_start t i = length (ravel (take i t))"

definition effective_targets :: "string set option \<Rightarrow> string set" where
  "effective_targets tf = (case tf of None \<Rightarrow> default_target_fields | Some T \<Rightarrow> T)"

definition matching_leaves :: "string set \<Rightarrow> pytree \<Rightarrow> nat list" where
  "matching_leaves T t = filter (\<lambda>i. name_matches T (fst (t ! i))) [0 ..< length t]"

subsection \<open>The step function with a finite-difference backward pass (\<^verbatim>\<open>make_step_fn\<close>)\<close>

text \<open>
  The physics engine's \<^verbatim>\<open>mjx.step(mx, .)\<close> and the caller's \<^verbatim>\<open>set_control_fn\<close> are
  parameters. The control \<open>u\<close> is a vector.
\<close>

definition step_fn ::
  "(pytree \<Rightarrow> pytree) \<Rightarrow> (pytree \<Rightarrow> real list \<Rightarrow> pytree) \<Rightarrow> pytree \<Rightarrow> real list \<Rightarrow> pytree" where
  "step_fn mjx_step set_control_fn dx u =
     (let dx_with_ctrl = set_control_fn dx u;
          dx_next = mjx_step dx_with_ctrl
      in dx_next)"

definition step_fn_fwd ::
  "(pytree \<Rightarrow> pytree) \<Rightarrow> (pytree \<Rightarrow> real list \<Rightarrow> pytree) \<Rightarrow> pytree \<Rightarrow> real list
     \<Rightarrow> pytree \<times> (pytree \<times> real list \<times> pytree)" where
  "step_fn_fwd mjx_step set_control_fn dx u =
     (let dx_next = step_fn mjx_step set_control_fn dx u
      in (dx_next, (dx, u, dx_next)))"

text \<open>
  The upstream gradient \<open>g\<close> has the structure of the state. The cotangent of an
  integer leaf has dtype \<^verbatim>\<open>float0\<close> and carries no data; every other leaf is a float
  array.
\<close>

datatype cotangent = Float0 | Cot "real list"

type_synonym cotree = "(path \<times> cotangent) list"

fun fix_leaf :: "array \<Rightarrow> cotangent \<Rightarrow> array" where
  "fix_leaf d_leaf Float0 = zeros_like d_leaf"
| "fix_leaf d_leaf (Cot v) = FloatArr v"

text \<open>\<^verbatim>\<open>jax.tree_map\<close> over two trees raises unless both have the same structure.\<close>

definition map_g_to_dinput :: "pytree \<Rightarrow> cotree \<Rightarrow> error + pytree" where
  "map_g_to_dinput diff_tree grad_tree =
     (if map fst grad_tree = map fst diff_tree
      then Inr (map2 (\<lambda>(p, d_leaf) (q, g_leaf). (p, fix_leaf d_leaf g_leaf)) diff_tree grad_tree)
      else Inl ValueError)"

text \<open>An elementwise binary operation on vectors, with NumPy's broadcasting rule.\<close>

definition broadcast2 ::
  "(real \<Rightarrow> real \<Rightarrow> real) \<Rightarrow> real list \<Rightarrow> real list \<Rightarrow> error + real list" where
  "broadcast2 f a b =
     (if length a = length b then Inr (map2 f a b)
      else if length a = 1 then Inr (map (f (hd a)) b)
      else if length b = 1 then Inr (map (\<lambda>x. f x (hd b)) a)
      else Inl ShapeError)"

text \<open>\<^verbatim>\<open>sensitivity_mask * (dx_perturbed_array - dx_out_array) / eps\<close>.\<close>

definition fd_row :: "FDCache \<Rightarrow> real list \<Rightarrow> real list \<Rightarrow> error + real list" where
  "fd_row fd_cache dx_perturbed_array dx_out_array =
     rbind (broadcast2 (-) dx_perturbed_array dx_out_array) (\<lambda>diff.
     rbind (broadcast2 (*) (sensitivity_mask fd_cache) diff) (\<lambda>masked.
     Inr (map (\<lambda>x. x / eps fd_cache) masked)))"

definition fdu_plus ::
  "(pytree \<Rightarrow> pytree) \<Rightarrow> (pytree \<Rightarrow> real list \<Rightarrow> pytree) \<Rightarrow> FDCache
     \<Rightarrow> pytree \<Rightarrow> real list \<Rightarrow> real list \<Rightarrow> nat \<Rightarrow> error + real list" where
  "fdu_plus mjx_step set_control_fn fd_cache dx_in u_in dx_out_array i =
     (let u_in_flat = u_in;
          e = (replicate (length u_in_flat) 0)[i := eps fd_cache];
          u_in_eps = map2 (+) u_in_flat e;
          dx_perturbed = step_fn mjx_step set_control_fn dx_in u_in_eps;
          dx_perturbed_array = ravel dx_perturbed
      in fd_row fd_cache dx_perturbed_array dx_out_array)"

definition fdx_for_index ::
  "(pytree \<Rightarrow> pytree) \<Rightarrow> (pytree \<Rightarrow> real list \<Rightarrow> pytree) \<Rightarrow> FDCache
     \<Rightarrow> real list \<Rightarrow> real list \<Rightarrow> real list \<Rightarrow> nat \<Rightarrow> error + real list" where
  "fdx_for_index mjx_step set_control_fn fd_cache dx_array u_in dx_out_array idx =
     (let perturbation = (replicate (length dx_array) 0)[idx := eps fd_cache]
      in rbind (unravel_dx fd_cache (map2 (+) dx_array perturbation)) (\<lambda>dx_in_perturbed.
           let dx_perturbed = step_fn mjx_step set_control_fn dx_in_perturbed u_in;
               dx_perturbed_array = ravel dx_perturbed
           in fd_row fd_cache dx_perturbed_array dx_out_array))"

text \<open>
  \<^verbatim>\<open>base.at[subset_indices].set(subset_rows)\<close> on a zero matrix: row \<open>k\<close> of
  \<open>subset_rows\<close> is written at row \<open>subset_indices[k]\<close>. A row must have the width of
  the matrix (or one element, which is broadcast).
\<close>

definition broadcast_row :: "nat \<Rightarrow> real list \<Rightarrow> error + real list" where
  "broadcast_row m row =
     (if length row = m then Inr row
      else if length row = 1 then Inr (replicate m (hd row))
      else Inl ShapeError)"

definition scatter_rows ::
  "real list list \<Rightarrow> nat list \<Rightarrow> nat \<times> nat \<Rightarrow> error + real list list" where
  "scatter_rows subset_rows subset_indices full_shape =
     (let base = replicate (fst full_shape) (replicate (snd full_shape) 0)
      in rbind (vmap (broadcast_row (snd full_shape)) subset_rows) (\<lambda>rows.
           Inr (fold (\<lambda>(i, row) acc. acc[i := row]) (zip subset_indices rows) base)))"

text \<open>The matrix-vector product \<^verbatim>\<open>M @ v\<close>; the contracted dimensions must agree.\<close>

definition dot :: "real list \<Rightarrow> real list \<Rightarrow> real" where
  "dot a b = sum_list (map2 (*) a b)"

definition matvec :: "real list list \<Rightarrow> real list \<Rightarrow> error + real list" where
  "matvec M v =
     (if list_all (\<lambda>row. length row = length v) M then Inr (map (\<lambda>row. dot row v) M)
      else Inl ShapeError)"

text \<open>\<^verbatim>\<open>d_u_flat.reshape(u_in.shape)\<close> raises unless the sizes agree.\<close>

definition reshape_like :: "real list \<Rightarrow> real list \<Rightarrow> error + real list" where
  "reshape_like u v = (if length v = length u then Inr v else Inl ShapeError)"

definition Ju_array ::
  "(pytree \<Rightarrow> pytree) \<Rightarrow> (pytree \<Rightarrow> real list \<Rightarrow> pytree) \<Rightarrow> FDCache
     \<Rightarrow> pytree \<Rightarrow> real list \<Rightarrow> pytree \<Rightarrow> error + real list list" where
  "Ju_array mjx_step set_control_fn fd_cache dx_in u_in dx_out =
     vmap (fdu_plus mjx_step set_control_fn fd_cache dx_in u_in (ravel dx_out))
       [0 ..< num_u_dims fd_cache]"

definition Jx_rows ::
  "(pytree \<Rightarrow> pytree) \<Rightarrow> (pytree \<Rightarrow> real list \<Rightarrow> pytree) \<Rightarrow> FDCache
     \<Rightarrow> pytree \<Rightarrow> real list \<Rightarrow> pytree \<Rightarrow> error + real list list" where
  "Jx_rows mjx_step set_control_fn fd_cache dx_in u_in dx_out =
     vmap (fdx_for_index mjx_step set_control_fn fd_cache (ravel dx_in) u_in (ravel dx_out))
       (inner_idx fd_cache)"

definition Jx_array ::
  "(pytree \<Rightarrow> pytree) \<Rightarrow> (pytree \<Rightarrow> real list \<Rightarrow> pytree) \<Rightarrow> FDCache
     \<Rightarrow> pytree \<Rightarrow> real list \<Rightarrow> pytree \<Rightarrow> error + real list list" where
  "Jx_array mjx_step set_control_fn fd_cache dx_in u_in dx_out =
     rbind (Jx_rows mjx_step set_control_fn fd_cache dx_in u_in dx_out) (\<lambda>rows.
       let dx_dim = length (ravel dx_in)
       in scatter_rows rows (inner_idx fd_cache) (dx_dim, dx_dim))"

definition step_fn_bwd ::
  "(pytree \<Rightarrow> pytree) \<Rightarrow> (pytree \<Rightarrow> real list \<Rightarrow> pytree) \<Rightarrow> FDCache
     \<Rightarrow> pytree \<times> real list \<times> pytree \<Rightarrow> cotree \<Rightarrow> error + pytree \<times> real list" where
  "step_fn_bwd mjx_step set_control_fn fd_cache res g =
     (case res of (dx_in, u_in, dx_out) \<Rightarrow>
        rbind (map_g_to_dinput dx_in g) (\<lambda>mapped_g.
        let g_array = ravel mapped_g
        in rbind (Ju_array mjx_step set_control_fn fd_cache dx_in u_in dx_out) (\<lambda>Ju.
           rbind (Jx_array mjx_step set_control_fn fd_cache dx_in u_in dx_out) (\<lambda>Jx.
           rbind (matvec Ju g_array) (\<lambda>d_u_flat.
           rbind (matvec Jx g_array) (\<lambda>d_x_flat.
           rbind (unravel_dx fd_cache d_x_flat) (\<lambda>d_x.
           rbind (reshape_like u_in d_u_flat) (\<lambda>d_u.
           Inr (d_x, d_u)))))))))"

subsection \<open>Configuration context (\<^verbatim>\<open>meta_context.py\<close>)\<close>

text \<open>
  For the rollout the state is the engine's \<^verbatim>\<open>mjx.Data\<close> with the fields that
  \<^verbatim>\<open>simulate.py\<close> reads and writes by name. Of \<^verbatim>\<open>mjx.Model\<close> only the dimensions
  are read.
\<close>

record mjx_data =
  qpos :: "real list"
  qvel :: "real list"
  ctrl :: "real list"
  time :: real

record mjx_model =
  nq :: nat
  nv :: nat
  nu :: nat

record Config =
  lr :: real
  seed :: int
  nsteps :: int
  epochs :: int
  batch :: int
  vis :: int
  dt :: real
  path :: string
  R :: "real list list"
  mx :: mjx_model

text \<open>The callbacks, with the signatures \<^verbatim>\<open>simulate.py\<close> calls them with.\<close>

record ('net, 'key) Callbacks =
  run_cost :: "mjx_model \<Rightarrow> mjx_data \<Rightarrow> real"
  terminal_cost :: "mjx_model \<Rightarrow> mjx_data \<Rightarrow> real"
  control_cost :: "mjx_model \<Rightarrow> mjx_data \<Rightarrow> real"
  init_gen :: "int \<Rightarrow> 'key \<Rightarrow> real list list"
  state_encoder :: "mjx_model \<Rightarrow> mjx_data \<Rightarrow> real list"
  state_decoder :: "real list \<Rightarrow> real list"
  gen_network :: "int \<Rightarrow> 'net"
  controller :: "'net \<Rightarrow> mjx_model \<Rightarrow> mjx_data \<Rightarrow> 'key \<Rightarrow> mjx_data \<times> real list"

record ('net, 'key) Context =
  cfg :: Config
  cbs :: "('net, 'key) Callbacks"

text \<open>
  \<^verbatim>\<open>Context.__init__\<close> asserts that every eigenvalue returned by
  \<^verbatim>\<open>jnp.linalg.eigh(R)[0]\<close> is positive. The eigenvalue routine is a library function
  and a parameter here.
\<close>

definition Context_init ::
  "(real list list \<Rightarrow> real list) \<Rightarrow> Config \<Rightarrow> ('net, 'key) Callbacks
     \<Rightarrow> error + ('net, 'key) Context" where
  "Context_init eigh_values c b =
     (if list_all (\<lambda>w. w > 0) (eigh_values (R c)) then Inr \<lparr> cfg = c, cbs = b \<rparr>
      else Inl AssertionError)"

subsection \<open>The batched rollout (\<^verbatim>\<open>simulate.py\<close>)\<close>

text \<open>
  The engine's \<^verbatim>\<open>mjx.make_data\<close> and \<^verbatim>\<open>mjx.step\<close> and JAX's
  \<^verbatim>\<open>jax.random.split\<close> are parameters of every function below.
\<close>

definition cost_fn :: "('net, 'key) Context \<Rightarrow> mjx_model \<Rightarrow> mjx_data \<Rightarrow> real list" where
  "cost_fn ctx m dx =
     (let ucost = control_cost (cbs ctx) m dx * dt (cfg ctx);
          xcst = run_cost (cbs ctx) m dx * dt (cfg ctx)
      in [ucost + xcst])"

text \<open>\<^verbatim>\<open>arr.at[:].set(v)\<close>: \<open>v\<close> is broadcast to the shape of \<open>arr\<close>.\<close>

definition at_all_set :: "real list \<Rightarrow> real list \<Rightarrow> error + real list" where
  "at_all_set arr v =
     (if length v = length arr then Inr v
      else if length v = 1 then Inr (replicate (length arr) (hd v))
      else Inl ShapeError)"

definition set_init ::
  "(mjx_model \<Rightarrow> mjx_data) \<Rightarrow> (mjx_model \<Rightarrow> mjx_data \<Rightarrow> mjx_data) \<Rightarrow> mjx_model
     \<Rightarrow> real list \<Rightarrow> error + mjx_data" where
  "set_init mjx_make_data mjx_step m x =
     (let dx = mjx_make_data m
      in rbind (at_all_set (qpos dx) (take (nq m) x)) (\<lambda>qpos'.
         rbind (at_all_set (qvel dx) (drop (nq m) x)) (\<lambda>qvel'.
         let dx = dx \<lparr> qpos := qpos', qvel := qvel' \<rparr>
         in Inr (mjx_step m dx))))"

text \<open>The body of the scan. The emitted row is \<^verbatim>\<open>[x, dx.ctrl, cost, t]\<close>.\<close>

definition step ::
  "(mjx_model \<Rightarrow> mjx_data \<Rightarrow> mjx_data) \<Rightarrow> ('key \<Rightarrow> 'key \<times> 'key) \<Rightarrow> ('net, 'key) Context
     \<Rightarrow> 'net \<Rightarrow> mjx_data \<times> 'key \<Rightarrow> (mjx_data \<times> 'key) \<times> real list" where
  "step mjx_step random_split ctx net carry =
     (case carry of (dx, key) \<Rightarrow>
        (case random_split key of (key, subkey) \<Rightarrow>
           (case controller (cbs ctx) net (mx (cfg ctx)) dx subkey of (dx, u) \<Rightarrow>
              let cost = cost_fn ctx (mx (cfg ctx)) dx;
                  dx = mjx_step (mx (cfg ctx)) dx;
                  x = state_encoder (cbs ctx) (mx (cfg ctx)) dx;
                  t = [time dx]
              in ((dx, key), x @ ctrl dx @ cost @ t))))"

text \<open>\<^verbatim>\<open>jax.lax.scan\<close> with \<^verbatim>\<open>xs=None\<close>: the body runs \<open>length\<close> times; a negative
  length is rejected.\<close>

fun scan :: "('c \<Rightarrow> 'c \<times> 'y) \<Rightarrow> 'c \<Rightarrow> nat \<Rightarrow> 'c \<times> 'y list" where
  "scan f c 0 = (c, [])"
| "scan f c (Suc n) =
     (case f c of (c', y) \<Rightarrow> (case scan f c' n of (c'', ys) \<Rightarrow> (c'', y # ys)))"

definition lax_scan :: "('c \<Rightarrow> 'c \<times> 'y) \<Rightarrow> 'c \<Rightarrow> int \<Rightarrow> error + 'c \<times> 'y list" where
  "lax_scan f init len = (if len < 0 then Inl ValueError else Inr (scan f init (nat len)))"

text \<open>
  \<^verbatim>\<open>jnp.concatenate([x_init.reshape(1,-1), x], axis=0)\<close>: the rows of \<open>x\<close> must be as
  wide as \<open>x_init\<close>. The width of \<open>x\<close> is static: it is the width of the row that the
  scan body emits, also when the scan runs zero times.
\<close>

definition concatenate_rows ::
  "real list \<Rightarrow> nat \<Rightarrow> real list list \<Rightarrow> error + real list list" where
  "concatenate_rows x_init width x =
     (if length x_init = width \<and> list_all (\<lambda>row. length row = width) x then Inr (x_init # x)
      else Inl ShapeError)"

definition rollout ::
  "(mjx_model \<Rightarrow> mjx_data) \<Rightarrow> (mjx_model \<Rightarrow> mjx_data \<Rightarrow> mjx_data) \<Rightarrow> ('key \<Rightarrow> 'key \<times> 'key)
     \<Rightarrow> ('net, 'key) Context \<Rightarrow> 'net \<Rightarrow> 'key \<Rightarrow> real list
     \<Rightarrow> error + real list list \<times> real list list \<times> real list \<times> real list" where
  "rollout mjx_make_data mjx_step random_split ctx net key x_init =
     (let m = mx (cfg ctx)
      in rbind (set_init mjx_make_data mjx_step m x_init) (\<lambda>dx.
         rbind (lax_scan (step mjx_step random_split ctx net) (dx, key) (nsteps (cfg ctx) - 1))
           (\<lambda>(carry, res).
         let dx' = fst carry;
             row_len = length (snd (step mjx_step random_split ctx net (dx, key)));
             x = map (\<lambda>row. take (length row - (nu m + 2)) row) res;
             u = map (\<lambda>row. drop (length row - (nu m + 2)) (take (length row - 2) row)) res;
             costs = map (\<lambda>row. row ! (length row - 2)) res;
             ts = map (\<lambda>row. row ! (length row - 1)) res
         in rbind (concatenate_rows x_init (row_len - (nu m + 2)) x) (\<lambda>x.
            let t = [dt (cfg ctx)] @ ts;
                tcost = terminal_cost (cbs ctx) m dx';
                costs = costs @ [tcost]
            in Inr (x, u, costs, t)))))"

definition controlled_simulate ::
  "(mjx_model \<Rightarrow> mjx_data) \<Rightarrow> (mjx_model \<Rightarrow> mjx_data \<Rightarrow> mjx_data) \<Rightarrow> ('key \<Rightarrow> 'key \<times> 'key)
     \<Rightarrow> real list list \<Rightarrow> ('net, 'key) Context \<Rightarrow> 'net \<Rightarrow> 'key
     \<Rightarrow> error + (real list list \<times> real list list \<times> real list \<times> real list) list" where
  "controlled_simulate mjx_make_data mjx_step random_split x_inits ctx net key =
     vmap (rollout mjx_make_data mjx_step random_split ctx net key) x_inits"

subsection \<open>Example inputs\<close>

text \<open>A small state with the leaves of \<^verbatim>\<open>mjx.Data\<close> that matter here, in its field
  order: an integer leaf, the time, and two degrees of freedom with one actuator.\<close>

definition example_dx :: pytree where
  "example_dx =
     [([GetAttrKey ''solver_niter''], Int32Arr [0]),
      ([GetAttrKey ''time''], FloatArr [0]),
      ([GetAttrKey ''qpos''], FloatArr [1, 0]),
      ([GetAttrKey ''qvel''], FloatArr [0, 2]),
      ([GetAttrKey ''ctrl''], FloatArr [0])]"

definition example_cache :: FDCache where
  "example_cache =
     \<lparr> unravel_dx = unravel_pytree example_dx,
       sensitivity_mask = [0, 0, 1, 1, 1, 1, 1],
       inner_idx = [2, 3, 4, 5, 6],
       dx_size = 7,
       num_u_dims = 1,
       eps = 1 / 1000000 \<rparr>"

subsection \<open>The backward pass in the words of its specification\<close>

text \<open>
  The rows that the specification describes: perturb one coordinate by \<open>+eps\<close>, run the
  forward step again, flatten, subtract the unperturbed flattened result, divide by
  \<open>eps\<close>, and mask. \<open>n\<close> is the flat dimension.
\<close>

definition spec_control_row ::
  "(pytree \<Rightarrow> pytree) \<Rightarrow> (pytree \<Rightarrow> real list \<Rightarrow> pytree) \<Rightarrow> FDCache
     \<Rightarrow> pytree \<Rightarrow> real list \<Rightarrow> nat \<Rightarrow> real list" where
  "spec_control_row mjx_step set_control_fn fd_cache dx u i =
     map (\<lambda>j. sensitivity_mask fd_cache ! j
              * (ravel (step_fn mjx_step set_control_fn dx (u[i := u ! i + eps fd_cache])) ! j
                 - ravel (step_fn mjx_step set_control_fn dx u) ! j)
              / eps fd_cache)
       [0 ..< dx_size fd_cache]"

definition spec_state_row ::
  "(pytree \<Rightarrow> pytree) \<Rightarrow> (pytree \<Rightarrow> real list \<Rightarrow> pytree) \<Rightarrow> FDCache \<Rightarrow> pytree
     \<Rightarrow> pytree \<Rightarrow> real list \<Rightarrow> nat \<Rightarrow> real list" where
  "spec_state_row mjx_step set_control_fn fd_cache dx_ref dx u idx =
     map (\<lambda>j. sensitivity_mask fd_cache ! j
              * (ravel (step_fn mjx_step set_control_fn
                          (unravel_list dx_ref ((ravel dx)[idx := ravel dx ! idx + eps fd_cache])) u) ! j
                 - ravel (step_fn mjx_step set_control_fn dx u) ! j)
              / eps fd_cache)
       [0 ..< dx_size fd_cache]"

text \<open>The flattened upstream gradient: the leaves of \<open>g\<close> in order, one after the
  other, with a \<^verbatim>\<open>float0\<close> leaf counted as zeros of the size of the state's leaf.\<close>

definition spec_flat_g :: "pytree \<Rightarrow> cotree \<Rightarrow> real list" where
  "spec_flat_g dx g =
     concat (map2 (\<lambda>(p, a) (q, g_leaf). case g_leaf of Float0 \<Rightarrow> replicate (size_arr a) 0
                                                    | Cot v \<Rightarrow> v) dx g)"

text \<open>The forward step keeps the structure of the state (the engine and the control
  setter return a state of the same shape).\<close>

definition shape_preserving ::
  "(pytree \<Rightarrow> pytree) \<Rightarrow> (pytree \<Rightarrow> real list \<Rightarrow> pytree) \<Rightarrow> pytree \<Rightarrow> nat \<Rightarrow> bool" where
  "shape_preserving mjx_step set_control_fn dx_ref n_u \<longleftrightarrow>
     (\<forall>d u. tree_shape d = tree_shape dx_ref \<longrightarrow> length u = n_u \<longrightarrow>
        tree_shape (step_fn mjx_step set_control_fn d u) = tree_shape dx_ref)"

text \<open>The upstream gradient has the structure of the state: the same paths, and every
  leaf that carries data has the size of the state's leaf.\<close>

definition cotangent_like :: "pytree \<Rightarrow> cotree \<Rightarrow> bool" where
  "cotangent_like dx g \<longleftrightarrow>
     map fst g = map fst dx \<and>
     list_all (\<lambda>((p, a), (q, g_leaf)). case g_leaf of Float0 \<Rightarrow> True
                                                  | Cot v \<Rightarrow> length v = size_arr a) (zip dx g)"

subsection \<open>An example engine on pytrees\<close>

text \<open>A control setter in the manner of \<^verbatim>\<open>dx.replace(ctrl=dx.ctrl.at[:].set(u))\<close> and a
  step that moves every float entry by a multiple of the sum of all entries and counts
  up every integer entry.\<close>

definition example_set_control :: "pytree \<Rightarrow> real list \<Rightarrow> pytree" where
  "example_set_control dx u =
     map (\<lambda>(p, a). if p = [GetAttrKey ''ctrl'']
                    then (p, convert_like a (take (size_arr a) (u @ replicate (size_arr a) 0)))
                    else (p, a)) dx"

definition example_mjx_step :: "pytree \<Rightarrow> pytree" where
  "example_mjx_step dx =
     map (\<lambda>(p, a). (p, case a of FloatArr xs \<Rightarrow> FloatArr (map (\<lambda>x. x + sum_list (ravel dx) / 100) xs)
                             | Int32Arr ws \<Rightarrow> Int32Arr (map (\<lambda>w. w + 1) ws)
                             | Int64Arr ws \<Rightarrow> Int64Arr (map (\<lambda>w. w + 1) ws))) dx"

definition example_g :: cotree where
  "example_g =
     [([GetAttrKey ''solver_niter''], Float0),
      ([GetAttrKey ''time''], Cot [1]),
      ([GetAttrKey ''qpos''], Cot [2, 3]),
      ([GetAttrKey ''qvel''], Cot [0, 1]),
      ([GetAttrKey ''ctrl''], Cot [5])]"

subsection \<open>The states inside a rollout\<close>

text \<open>The carry of the scan before iteration \<open>k\<close>, and the state after the controller
  has written its control into it (the state the running cost is taken from, and the one
  the engine then steps).\<close>

definition rollout_carry ::
  "(mjx_model \<Rightarrow> mjx_data) \<Rightarrow> (mjx_model \<Rightarrow> mjx_data \<Rightarrow> mjx_data) \<Rightarrow> ('key \<Rightarrow> 'key \<times> 'key)
     \<Rightarrow> ('net, 'key) Context \<Rightarrow> 'net \<Rightarrow> 'key \<Rightarrow> real list \<Rightarrow> nat \<Rightarrow> error + mjx_data \<times> 'key" where
  "rollout_carry mjx_make_data mjx_step random_split ctx net key x_init k =
     rbind (set_init mjx_make_data mjx_step (mx (cfg ctx)) x_init) (\<lambda>dx.
       Inr (fst (scan (step mjx_step random_split ctx net) (dx, key) k)))"

definition controlled ::
  "('key \<Rightarrow> 'key \<times> 'key) \<Rightarrow> ('net, 'key) Context \<Rightarrow> 'net \<Rightarrow> mjx_data \<times> 'key \<Rightarrow> mjx_data" where
  "controlled random_split ctx net carry =
     (case carry of (dx, key) \<Rightarrow>
        (case random_split key of (key', subkey) \<Rightarrow>
           fst (controller (cbs ctx) net (mx (cfg ctx)) dx subkey)))"

subsection \<open>An example rollout: a point mass\<close>

text \<open>One position, one velocity, one actuator; the engine integrates with the model's
  time step \<open>1\<close>. The callbacks follow \<^verbatim>\<open>single_arm.py\<close>: the encoder is
  \<^verbatim>\<open>[qpos, qvel]\<close>, the controller writes its control into \<^verbatim>\<open>dx.ctrl\<close>.\<close>

definition example_model :: mjx_model where
  "example_model = \<lparr> nq = 1, nv = 1, nu = 1 \<rparr>"

definition example_make_data :: "mjx_model \<Rightarrow> mjx_data" where
  "example_make_data m =
     \<lparr> qpos = replicate (nq m) 0, qvel = replicate (nv m) 0, ctrl = replicate (nu m) 0, time = 0 \<rparr>"

definition example_step :: "mjx_model \<Rightarrow> mjx_data \<Rightarrow> mjx_data" where
  "example_step m dx =
     dx \<lparr> qpos := map2 (+) (qpos dx) (qvel dx),
          qvel := map2 (+) (qvel dx) (ctrl dx),
          time := time dx + 1 \<rparr>"

definition example_split :: "unit \<Rightarrow> unit \<times> unit" where
  "example_split k = ((), ())"

definition example_policy :: "unit \<Rightarrow> mjx_model \<Rightarrow> mjx_data \<Rightarrow> unit \<Rightarrow> mjx_data \<times> real list" where
  "example_policy net m dx policy_key =
     (let u = map uminus (qpos dx) in (dx \<lparr> ctrl := u \<rparr>, u))"

definition example_cfg :: Config where
  "example_cfg =
     \<lparr> lr = 1 / 1000, seed = 0, nsteps = 3, epochs = 1, batch = 2, vis = 1, dt = 1,
       path = ''point_mass.xml'', R = [[1]], mx = example_model \<rparr>"

definition example_cbs :: "(unit, unit) Callbacks" where
  "example_cbs =
     \<lparr> run_cost = (\<lambda>m dx. sum_list (map (\<lambda>q. q * q) (qpos dx))),
       terminal_cost = (\<lambda>m dx. 10 * sum_list (map (\<lambda>q. q * q) (qpos dx))),
       control_cost = (\<lambda>m dx. sum_list (map (\<lambda>c. c * c) (ctrl dx))),
       init_gen = (\<lambda>n k. replicate (nat n) [1, 0]),
       state_encoder = (\<lambda>m dx. qpos dx @ qvel dx),
       state_decoder = (\<lambda>x. x),
       gen_network = (\<lambda>s. ()),
       controller = example_policy \<rparr>"

definition example_ctx :: "(unit, unit) Context" where
  "example_ctx = \<lparr> cfg = example_cfg, cbs = example_cbs \<rparr>"

text \<open>An eigenvalue routine for diagonal matrices: the diagonal entries in ascending
  order, as \<^verbatim>\<open>jnp.linalg.eigh\<close> returns them for such a matrix.\<close>

definition diag_eigh :: "real list list \<Rightarrow> real list" where
  "diag_eigh M = sort (map (\<lambda>i. M ! i ! i) [0 ..< length M])"

section \<open>Properties\<close>

subsection \<open>Results and \<^verbatim>\<open>vmap\<close>\<close>

lemma rbind_Inr [simp]: "rbind (Inr x) f = f x"
  by (simp add: rbind_def)

lemma rbind_Inl [simp]: "rbind (Inl e) f = Inl e"
  by (simp add: rbind_def)

lemma rbind_eq_Inr: "rbind m f = Inr y \<longleftrightarrow> (\<exists>x. m = Inr x \<and> f x = Inr y)"
  by (cases m) simp_all

lemma vmap_Inr: "(\<And>x. x \<in> set xs \<Longrightarrow> f x = Inr (h x)) \<Longrightarrow> vmap f xs = Inr (map h xs)"
  by (induction xs) simp_all

lemma vmap_eq_Inr:
  "vmap f xs = Inr ys \<Longrightarrow> length ys = length xs \<and> (\<forall>i < length xs. f (xs ! i) = Inr (ys ! i))"
proof (induction xs arbitrary: ys)
  case Nil
  then show ?case by simp
next
  case (Cons x xs)
  from Cons.prems obtain y ys' where y: "f x = Inr y" and ys': "vmap f xs = Inr ys'"
    and ys: "ys = y # ys'"
    by (auto simp: rbind_eq_Inr)
  from Cons.IH[OF ys'] y show ?case
    by (auto simp: ys nth_Cons split: nat.splits)
qed

subsection \<open>Flattening and the cache\<close>

lemma length_ravel_leaf [simp]: "length (ravel_leaf a) = size_arr a"
  by (cases a) auto

lemma length_ravel: "length (ravel t) = sum_list (map (\<lambda>(p, a). size_arr a) t)"
  by (induction t) (auto simp: ravel_def)

lemma ravel_Nil [simp]: "ravel [] = []"
  by (simp add: ravel_def)

lemma ravel_Cons [simp]: "ravel ((p, a) # t) = ravel_leaf a @ ravel t"
  by (simp add: ravel_def)

lemma ravel_append: "ravel (s @ t) = ravel s @ ravel t"
  by (simp add: ravel_def)

lemma leaf_start_sizes:
  "leaf_start t i = sum_list (take i (map (\<lambda>(p, a). size_arr a) t))"
  by (simp add: leaf_start_def length_ravel take_map)

lemma leaf_start_Suc:
  "i < length t \<Longrightarrow> leaf_start t (Suc i) = leaf_start t i + size_arr (snd (t ! i))"
  by (simp add: leaf_start_def take_Suc_conv_app_nth ravel_append ravel_def split: prod.splits)

lemma leaf_start_mono: "i \<le> j \<Longrightarrow> leaf_start t i \<le> leaf_start t j"
proof (induction j)
  case 0
  then show ?case by simp
next
  case (Suc j)
  show ?case
  proof (cases "i = Suc j")
    case True
    then show ?thesis by simp
  next
    case False
    with Suc have le: "leaf_start t i \<le> leaf_start t j" by simp
    show ?thesis
    proof (cases "j < length t")
      case True
      with le show ?thesis by (simp add: leaf_start_Suc)
    next
      case False
      then show ?thesis using le by (simp add: leaf_start_def)
    qed
  qed
qed

lemma leaf_start_le_total: "leaf_start t i \<le> length (ravel t)"
proof -
  have "leaf_start t i \<le> leaf_start t (max i (length t))"
    by (rule leaf_start_mono) simp
  then show ?thesis by (simp add: leaf_start_def)
qed

lemma length_cumsum_from [simp]: "length (cumsum_from a xs) = length xs"
  by (induction xs arbitrary: a) auto

lemma cumsum_from_nth:
  "i < length xs \<Longrightarrow> cumsum_from a xs ! i = a + sum_list (take (Suc i) xs)"
  by (induction xs arbitrary: a i) (auto simp: nth_Cons split: nat.splits)

lemma leaf_index_range_eq:
  assumes "i < length t"
  shows "leaf_index_range (cumsum (map (\<lambda>(p, a). size_arr a) t)) i
           = [leaf_start t i ..< leaf_start t (Suc i)]"
proof (cases i)
  case 0
  with assms show ?thesis
    by (simp add: leaf_index_range_def cumsum_def cumsum_from_nth leaf_start_sizes)
next
  case (Suc j)
  with assms show ?thesis
    by (simp add: leaf_index_range_def cumsum_def cumsum_from_nth leaf_start_sizes)
qed

text \<open>The concatenation of the ranges of an increasing list of leaves is strictly increasing.\<close>

lemma ranges_sorted:
  "sorted_wrt (<) is \<Longrightarrow>
   sorted_wrt (<) (concat (map (\<lambda>i. [leaf_start t i ..< leaf_start t (Suc i)]) is))"
proof (induction "is")
  case Nil
  then show ?case by simp
next
  case (Cons i js)
  have "x < y" if "x \<in> set [leaf_start t i ..< leaf_start t (Suc i)]"
    and "j \<in> set js" and "y \<in> set [leaf_start t j ..< leaf_start t (Suc j)]" for x y j
  proof -
    from Cons.prems that(2) have "Suc i \<le> j" by auto
    then have "leaf_start t (Suc i) \<le> leaf_start t j" by (rule leaf_start_mono)
    with that show ?thesis by simp
  qed
  with Cons show ?case
    by (auto simp: sorted_wrt_append)
qed

lemma at_set_length [simp]: "length (at_set xs idxs v) = length xs"
  unfolding at_set_def by (induction idxs arbitrary: xs) auto

lemma at_set_nth:
  "k < length xs \<Longrightarrow> at_set xs idxs v ! k = (if k \<in> set idxs then v else xs ! k)"
  unfolding at_set_def
  by (induction idxs arbitrary: xs) (auto simp: nth_list_update)

lemma mask_sum:
  assumes "distinct idxs" and "set idxs \<subseteq> {..<n}"
  shows "sum_list (at_set (replicate n (0::real)) idxs 1) = real (length idxs)"
proof -
  have "at_set (replicate n (0::real)) idxs 1
          = map (\<lambda>k. if k \<in> set idxs then 1 else 0) [0 ..< n]"
    by (rule nth_equalityI) (simp_all add: at_set_nth)
  then have "sum_list (at_set (replicate n (0::real)) idxs 1)
          = (\<Sum>k = 0 ..< n. if k \<in> set idxs then 1 else 0)"
    by (simp add: interv_sum_list_conv_sum_set_nat)
  also have "\<dots> = real (card ({0 ..< n} \<inter> set idxs))"
    by (simp add: sum.If_cases)
  also have "{0 ..< n} \<inter> set idxs = set idxs"
    using assms(2) by auto
  finally show ?thesis using assms(1) by (simp add: distinct_card)
qed

lemma build_fd_cache_Inr:
  assumes "build_fd_cache dx_ref u_ref tf e = Inr c"
  shows "inner_idx c = concat (map (\<lambda>i. [leaf_start dx_ref i ..< leaf_start dx_ref (Suc i)])
                          (matching_leaves (effective_targets tf) dx_ref))"
    and "sensitivity_mask c = at_set (replicate (length (ravel dx_ref)) 0) (inner_idx c) 1"
    and "matching_leaves (effective_targets tf) dx_ref \<noteq> []"
    and "unravel_dx c = unravel_pytree dx_ref"
    and "dx_size c = length (ravel dx_ref)"
    and "num_u_dims c = length u_ref"
    and "eps c = e"
proof -
  let ?is = "matching_leaves (effective_targets tf) dx_ref"
  have eq: "map (leaf_index_range (cumsum (map (\<lambda>(p, a). size_arr a) dx_ref))) ?is
          = map (\<lambda>i. [leaf_start dx_ref i ..< leaf_start dx_ref (Suc i)]) ?is"
    by (rule map_cong) (auto simp: matching_leaves_def leaf_index_range_eq)
  from assms show "inner_idx c = concat (map (\<lambda>i. [leaf_start dx_ref i ..< leaf_start dx_ref (Suc i)]) ?is)"
    and "sensitivity_mask c = at_set (replicate (length (ravel dx_ref)) 0) (inner_idx c) 1"
    and "?is \<noteq> []"
    and "unravel_dx c = unravel_pytree dx_ref"
    and "dx_size c = length (ravel dx_ref)"
    and "num_u_dims c = length u_ref"
    and "eps c = e"
    unfolding build_fd_cache_def Let_def rbind_def np_concatenate_def
      effective_targets_def[symmetric] matching_leaves_def[symmetric] eq
    by (auto split: if_splits)
qed


lemma in_ranges_iff:
  "k \<in> set (concat (map (\<lambda>i. [leaf_start t i ..< leaf_start t (Suc i)]) is))
     \<longleftrightarrow> (\<exists>i \<in> set is. leaf_start t i \<le> k \<and> k < leaf_start t (Suc i))"
  by auto

text \<open>
  Claim C5. For every cache that \<^verbatim>\<open>build_fd_cache\<close> returns, the sum of the sensitivity
  mask equals the number of inner indices; the mask has the length of the flattened state
  and is 1 exactly at the inner indices and 0 elsewhere; the inner indices are distinct, and
  an index is an inner index exactly when it lies in the flat range of a leaf whose path
  matches one of the requested target field names.
\<close>

theorem C5_sensitivity_mask_coverage:
  assumes "build_fd_cache dx_ref u_ref tf e = Inr c"
  shows "sum_list (sensitivity_mask c) = real (length (inner_idx c))
       \<and> length (sensitivity_mask c) = length (ravel dx_ref)
       \<and> (\<forall>k < length (ravel dx_ref).
             sensitivity_mask c ! k = (if k \<in> set (inner_idx c) then 1 else 0))
       \<and> distinct (inner_idx c)
       \<and> (\<forall>k. k \<in> set (inner_idx c) \<longleftrightarrow>
             (\<exists>i < length dx_ref. name_matches (effective_targets tf) (fst (dx_ref ! i))
                 \<and> leaf_start dx_ref i \<le> k
                 \<and> k < leaf_start dx_ref i + size_arr (snd (dx_ref ! i))))"
proof -
  let ?is = "matching_leaves (effective_targets tf) dx_ref"
  note c = build_fd_cache_Inr[OF assms]
  have sorted_is: "sorted_wrt (<) ?is"
    unfolding matching_leaves_def by (rule sorted_wrt_filter) simp
  have "sorted_wrt (<) (inner_idx c)"
    unfolding c(1) by (rule ranges_sorted[OF sorted_is])
  then have dist: "distinct (inner_idx c)"
    by (simp add: strict_sorted_iff)
  have mem: "k \<in> set (inner_idx c) \<longleftrightarrow>
      (\<exists>i < length dx_ref. name_matches (effective_targets tf) (fst (dx_ref ! i))
          \<and> leaf_start dx_ref i \<le> k
          \<and> k < leaf_start dx_ref i + size_arr (snd (dx_ref ! i)))" for k
    unfolding c(1) in_ranges_iff
    by (auto simp: matching_leaves_def leaf_start_Suc)
  have sub: "set (inner_idx c) \<subseteq> {..< length (ravel dx_ref)}"
  proof
    fix k assume "k \<in> set (inner_idx c)"
    then obtain i where "i < length dx_ref" "k < leaf_start dx_ref (Suc i)"
      unfolding mem by (auto simp: leaf_start_Suc)
    moreover have "leaf_start dx_ref (Suc i) \<le> length (ravel dx_ref)"
      by (rule leaf_start_le_total)
    ultimately show "k \<in> {..< length (ravel dx_ref)}" by simp
  qed
  have "sum_list (sensitivity_mask c) = real (length (inner_idx c))"
    unfolding c(2) by (rule mask_sum[OF dist sub])
  moreover have "length (sensitivity_mask c) = length (ravel dx_ref)"
    unfolding c(2) by simp
  moreover have "\<forall>k < length (ravel dx_ref).
        sensitivity_mask c ! k = (if k \<in> set (inner_idx c) then 1 else 0)"
    unfolding c(2) by (simp add: at_set_nth)
  ultimately show ?thesis using dist mem by blast
qed

lemma build_example: "build_fd_cache example_dx [0] None (1 / 1000000) = Inr example_cache"
  unfolding example_cache_def example_dx_def
  by (simp add: build_fd_cache_def rbind_def np_concatenate_def
      default_target_fields_def name_matches_def cumsum_def leaf_index_range_def at_set_def
      ravel_def upt_conv_Cons)

lemma name_matches_Un:
  "name_matches (T \<union> U) p \<longleftrightarrow> name_matches T p \<or> name_matches U p"
  by (induction p) (auto simp: name_matches_def split: option.splits)

lemma build_fd_cache_matching:
  "build_fd_cache dx_ref u_ref tf e =
     rbind (np_concatenate
              (map (leaf_index_range (cumsum (map (\<lambda>(p, leaf). size_arr leaf) dx_ref)))
                 (matching_leaves (effective_targets tf) dx_ref)))
       (\<lambda>inner_idx'.
           Inr \<lparr> unravel_dx = unravel_pytree dx_ref,
                 sensitivity_mask = at_set (replicate (length (ravel dx_ref)) 0) inner_idx' 1,
                 inner_idx = inner_idx',
                 dx_size = length (ravel dx_ref),
                 num_u_dims = length u_ref,
                 eps = e \<rparr>)"
  by (simp add: build_fd_cache_def Let_def effective_targets_def matching_leaves_def)

text \<open>A name that matches no leaf changes nothing as long as another name matches.\<close>

lemma build_fd_cache_ignores_unmatched:
  assumes "matching_leaves U dx_ref = []"
  shows "build_fd_cache dx_ref u_ref (Some (T \<union> U)) e = build_fd_cache dx_ref u_ref (Some T) e"
proof -
  from assms have "\<not> name_matches U (fst (dx_ref ! i))" if "i < length dx_ref" for i
    using that by (auto simp: matching_leaves_def filter_empty_conv)
  then have "matching_leaves (T \<union> U) dx_ref = matching_leaves T dx_ref"
    unfolding matching_leaves_def by (intro filter_cong) (auto simp: name_matches_Un)
  then show ?thesis
    by (simp add: build_fd_cache_matching effective_targets_def)
qed

text \<open>When no name matches at all, the build raises.\<close>

lemma build_fd_cache_no_match:
  "matching_leaves (effective_targets tf) dx_ref = [] \<Longrightarrow>
     build_fd_cache dx_ref u_ref tf e = Inl ValueError"
  by (simp add: build_fd_cache_matching np_concatenate_def)

text \<open>
  Claim C7. When no requested target field name matches a leaf, the list of index ranges
  is empty and \<^verbatim>\<open>np.concatenate\<close> raises: the build does not succeed. Evaluated on the
  example state with the single unmatched name \<^verbatim>\<open>foo\<close>.
\<close>

theorem C7_all_unmatched_raises:
  "build_fd_cache example_dx [0] (Some {''foo''}) (1 / 1000000) = Inl ValueError"
  unfolding example_dx_def
  by (simp add: build_fd_cache_def rbind_def np_concatenate_def
      name_matches_def cumsum_def leaf_index_range_def at_set_def
      ravel_def upt_conv_Cons)


theorem C5_witness:
  "build_fd_cache example_dx [0] None (1 / 1000000) = Inr example_cache
   \<and> sum_list (sensitivity_mask example_cache) = real (length (inner_idx example_cache))
   \<and> length (sensitivity_mask example_cache) = length (ravel example_dx)
   \<and> distinct (inner_idx example_cache)"
  using build_example C5_sensitivity_mask_coverage [OF build_example] by blast

subsection \<open>The flatten/unflatten pair\<close>

lemma trunc_of_int [simp]: "trunc (of_int n) = n"
  by (simp add: trunc_def)

lemma trunc_zero [simp]: "trunc 0 = 0"
  by (simp add: trunc_def)

lemma saturate_zero [simp]: "saturate w 0 = 0"
  by (simp add: saturate_def)

lemma saturate_id: "- (2 ^ (w - 1)) \<le> z \<Longrightarrow> z < 2 ^ (w - 1) \<Longrightarrow> saturate w z = z"
  by (simp add: saturate_def)

lemma saturate_bounds: "- (2 ^ (w - 1)) \<le> saturate w z \<and> saturate w z < 2 ^ (w - 1)"
  by (simp add: saturate_def)

lemma saturate_sint32 [simp]: "saturate 32 (sint (w :: 32 word)) = sint w"
  using sint_ge[of w] sint_lt[of w] by (intro saturate_id) simp_all

lemma saturate_sint64 [simp]: "saturate 64 (sint (w :: 64 word)) = sint w"
  using sint_ge[of w] sint_lt[of w] by (intro saturate_id) simp_all

lemma sint_saturate32 [simp]: "sint (word_of_int (saturate 32 z) :: 32 word) = saturate 32 z"
  using saturate_bounds[of 32 z] by (simp add: sint_sbintrunc' signed_take_bit_int_eq_self)

lemma sint_saturate64 [simp]: "sint (word_of_int (saturate 64 z) :: 64 word) = saturate 64 z"
  using saturate_bounds[of 64 z] by (simp add: sint_sbintrunc' signed_take_bit_int_eq_self)

lemma trunc_signed [simp]: "trunc (signed w :: real) = sint w"
proof -
  have e: "(signed w :: real) = of_int (sint w)" by (rule of_int_sint[symmetric])
  show ?thesis unfolding e by (rule trunc_of_int)
qed

lemma signed_saturate32 [simp]:
  "(signed (word_of_int (saturate 32 z) :: 32 word) :: real) = of_int (saturate 32 z)"
proof -
  have "(signed (word_of_int (saturate 32 z) :: 32 word) :: real)
      = of_int (sint (word_of_int (saturate 32 z) :: 32 word))"
    by (rule of_int_sint[symmetric])
  also have "sint (word_of_int (saturate 32 z) :: 32 word) = saturate 32 z"
    by (rule sint_saturate32)
  finally show ?thesis .
qed

lemma signed_saturate64 [simp]:
  "(signed (word_of_int (saturate 64 z) :: 64 word) :: real) = of_int (saturate 64 z)"
proof -
  have "(signed (word_of_int (saturate 64 z) :: 64 word) :: real)
      = of_int (sint (word_of_int (saturate 64 z) :: 64 word))"
    by (rule of_int_sint[symmetric])
  also have "sint (word_of_int (saturate 64 z) :: 64 word) = saturate 64 z"
    by (rule sint_saturate64)
  finally show ?thesis .
qed

lemma cast_roundtrip_Float64 [simp]: "cast_roundtrip Float64 = (\<lambda>x. x)"
  by (rule ext) simp

lemma round_f64_zero [simp]: "round_f64 0 = 0"
  by (simp add: round_f64_def)

text \<open>Every integer of magnitude below \<open>2^53\<close> is a \<^verbatim>\<open>float64\<close>.\<close>

lemma round_f64_exact:
  assumes "\<bar>n\<bar> < 2 ^ 53"
  shows "round_f64 n = n"
proof (cases "n = 0")
  case True
  then show ?thesis by simp
next
  case False
  then have pos: "0 < \<bar>n\<bar>" by simp
  from bitlen_bounds[OF pos] assms have "(2::int) ^ nat (bitlen \<bar>n\<bar> - 1) < 2 ^ 53"
    by linarith
  then have "nat (bitlen \<bar>n\<bar> - 1) < 53"
    by (simp only: power_strict_increasing_iff[of 2] one_less_numeral_iff semiring_norm)
  then have "nat (bitlen \<bar>n\<bar> - 53) = 0" by simp
  then show ?thesis
    by (simp add: round_f64_def Let_def mult_sgn_abs)
qed


lemma convert_like_ravel_leaf:
  "dtype_of a = dtype_of b \<Longrightarrow> int64_exact_leaf a \<Longrightarrow> convert_like b (ravel_leaf a) = a"
  by (cases a; cases b) (simp_all add: comp_def list_all_iff map_idI)

lemma unravel_list_ravel:
  "tree_shape s = tree_shape ref \<Longrightarrow> int64_exact s \<Longrightarrow> unravel_list ref (ravel s) = s"
proof (induction ref arbitrary: s)
  case Nil
  then show ?case by (simp add: tree_shape_def)
next
  case (Cons r ref)
  obtain p b where r: "r = (p, b)" by (cases r)
  from Cons.prems(1) obtain q a s' where s: "s = (q, a) # s'"
    by (cases s) (auto simp: tree_shape_def)
  from Cons.prems(1) have eq: "q = p" "dtype_of a = dtype_of b" "size_arr a = size_arr b"
    and rest: "tree_shape s' = tree_shape ref"
    by (simp_all add: tree_shape_def r s)
  from Cons.prems(2) have ex: "int64_exact_leaf a" "int64_exact s'"
    by (simp_all add: int64_exact_def s)
  show ?case
    using Cons.IH[OF rest ex(2)] eq ex(1) by (simp add: r s convert_like_ravel_leaf)
qed

lemma tree_shape_length_ravel:
  "tree_shape s = tree_shape ref \<Longrightarrow> length (ravel s) = length (ravel ref)"
proof -
  assume "tree_shape s = tree_shape ref"
  then have "map (snd \<circ> snd) (tree_shape s) = map (snd \<circ> snd) (tree_shape ref)" by simp
  then have "map (\<lambda>(p, a). size_arr a) s = map (\<lambda>(p, a). size_arr a) ref"
    by (simp add: tree_shape_def comp_def split_def)
  then show ?thesis by (simp add: length_ravel)
qed

lemma ravel_leaf_convert_like:
  "ravel_leaf (convert_like a w) = map (cast_roundtrip (dtype_of a)) w"
  by (cases a) simp_all

lemma size_convert_like [simp]: "size_arr (convert_like a w) = length w"
  by (cases a) simp_all

lemma dtype_of_convert_like [simp]: "dtype_of (convert_like a w) = dtype_of a"
  by (cases a) simp_all

lemma tree_shape_unravel_list:
  "length v = length (ravel ref) \<Longrightarrow> tree_shape (unravel_list ref v) = tree_shape ref"
proof (induction ref arbitrary: v)
  case Nil
  then show ?case by (simp add: tree_shape_def)
next
  case (Cons r ref)
  obtain p a where r: "r = (p, a)" by (cases r)
  from Cons.prems have len: "length (drop (size_arr a) v) = length (ravel ref)"
    by (simp add: r)
  from Cons.prems have "size_arr a \<le> length v" by (simp add: r)
  with Cons.IH[OF len] show ?case
    by (simp add: r tree_shape_def)
qed

lemma ravel_unravel_list:
  "length v = length (ravel ref) \<Longrightarrow> ravel (unravel_list ref v) = retyped ref v"
proof (induction ref arbitrary: v)
  case Nil
  then show ?case by (simp add: retyped_def dtype_positions_def)
next
  case (Cons r ref)
  obtain p a where r: "r = (p, a)" by (cases r)
  from Cons.prems have len: "length (drop (size_arr a) v) = length (ravel ref)"
    by (simp add: r)
  from Cons.prems have le: "size_arr a \<le> length v" by (simp add: r)
  have "retyped (r # ref) v
      = map2 cast_roundtrip (replicate (size_arr a) (dtype_of a)) (take (size_arr a) v)
        @ retyped ref (drop (size_arr a) v)"
    by (simp add: retyped_def dtype_positions_def r zip_append1)
  also have "map2 cast_roundtrip (replicate (size_arr a) (dtype_of a)) (take (size_arr a) v)
      = map (cast_roundtrip (dtype_of a)) (take (size_arr a) v)"
    using le by (intro nth_equalityI) simp_all
  finally show ?case
    using Cons.IH[OF len] by (simp add: r ravel_leaf_convert_like)
qed

lemma length_dtype_positions [simp]: "length (dtype_positions t) = length (ravel t)"
  by (induction t) (auto simp: dtype_positions_def)

lemma cast_roundtrip_representable: "representable d x \<Longrightarrow> cast_roundtrip d x = x"
  by (cases d) (simp_all add: saturate_id)

lemma cast_roundtrip_zero [simp]: "cast_roundtrip d 0 = 0"
  by (cases d) simp_all

lemma retyped_id:
  assumes "length v = length (ravel ref)"
    and "\<forall>k < length v. representable (dtype_positions ref ! k) (v ! k)"
  shows "retyped ref v = v"
  using assms
  by (intro nth_equalityI) (simp_all add: retyped_def cast_roundtrip_representable)

lemma retyped_nth_zero:
  assumes "length v = length (ravel ref)" and "k < length v" and "v ! k = 0"
  shows "retyped ref v ! k = 0"
  using assms by (simp add: retyped_def)

text \<open>
  Claim C4, amended. Unflattening the flattened state gives the state back, for every state
  that has the structure of the reference state and whose 64-bit integer entries are
  \<^verbatim>\<open>float64\<close> numbers. Flattening an unflattened vector of the right dimension gives the
  vector with every entry at an integer leaf truncated towards zero, saturated at the
  bounds of the leaf's integer type and rounded to \<^verbatim>\<open>float64\<close>; it gives the vector
  itself when every entry at an integer leaf is an integer that the leaf's type and
  \<^verbatim>\<open>float64\<close> both hold.
\<close>

theorem C4_codec_roundtrip:
  "(tree_shape s = tree_shape dx_ref \<and> int64_exact s \<longrightarrow>
        unravel_pytree dx_ref (ravel s) = Inr s)
   \<and> (length v = length (ravel dx_ref) \<longrightarrow>
        (\<exists>s'. unravel_pytree dx_ref v = Inr s' \<and> tree_shape s' = tree_shape dx_ref
           \<and> ravel s' = retyped dx_ref v))
   \<and> (length v = length (ravel dx_ref)
        \<and> (\<forall>k < length v. representable (dtype_positions dx_ref ! k) (v ! k)) \<longrightarrow>
        (\<exists>s'. unravel_pytree dx_ref v = Inr s' \<and> ravel s' = v))"
proof (intro conjI impI)
  assume a: "tree_shape s = tree_shape dx_ref \<and> int64_exact s"
  then show "unravel_pytree dx_ref (ravel s) = Inr s"
    using tree_shape_length_ravel[of s dx_ref] unravel_list_ravel[of s dx_ref]
    by (simp add: unravel_pytree_def)
next
  assume len: "length v = length (ravel dx_ref)"
  then have "unravel_pytree dx_ref v = Inr (unravel_list dx_ref v)"
    by (simp add: unravel_pytree_def)
  with tree_shape_unravel_list[OF len] ravel_unravel_list[OF len]
  show "\<exists>s'. unravel_pytree dx_ref v = Inr s' \<and> tree_shape s' = tree_shape dx_ref
           \<and> ravel s' = retyped dx_ref v"
    by blast
next
  assume a: "length v = length (ravel dx_ref)
        \<and> (\<forall>k < length v. representable (dtype_positions dx_ref ! k) (v ! k))"
  then have len: "length v = length (ravel dx_ref)" by (rule conjunct1)
  from a have "retyped dx_ref v = v" by (intro retyped_id) blast+
  moreover from len have "unravel_pytree dx_ref v = Inr (unravel_list dx_ref v)"
    by (simp add: unravel_pytree_def)
  ultimately show "\<exists>s'. unravel_pytree dx_ref v = Inr s' \<and> ravel s' = v"
    using ravel_unravel_list[OF len] by simp
qed

text \<open>The claim as stated fails: on the example state, whose first leaf is an integer,
  the flat vector that starts with \<open>1/2\<close> is unflattened to the example state itself, and
  that state flattens to a different vector.\<close>

theorem C4_counterexample:
  "length [1 / 2, 0, 1, 0, 0, 2, 0 :: real] = length (ravel example_dx)
   \<and> unravel_pytree example_dx [1 / 2, 0, 1, 0, 0, 2, 0] = Inr example_dx
   \<and> ravel example_dx \<noteq> [1 / 2, 0, 1, 0, 0, 2, 0]"
  by (simp add: unravel_pytree_def example_dx_def trunc_def saturate_def)

text \<open>A 64-bit integer that is not a \<^verbatim>\<open>float64\<close> is not reproduced: \<open>2^53 + 1\<close>
  comes back as \<open>2^53\<close>.\<close>

lemma bitlen_example: "bitlen 9007199254740993 = 54"
  by code_simp

lemma round_f64_example: "round_f64 9007199254740993 = 9007199254740992"
  by (simp add: round_f64_def Let_def bitlen_example)

lemma int64_not_reproduced:
  "unravel_pytree [([GetAttrKey ''n''], Int64Arr [0])]
      (ravel [([GetAttrKey ''n''], Int64Arr [9007199254740993])])
     = Inr [([GetAttrKey ''n''], Int64Arr [9007199254740992])]"
  by (simp add: unravel_pytree_def round_f64_example saturate_def del: of_int_numeral)

text \<open>A float beyond the bounds of a 32-bit integer leaf saturates.\<close>

lemma int32_saturates:
  "unravel_pytree [([GetAttrKey ''n''], Int32Arr [0])] [30000000000]
     = Inr [([GetAttrKey ''n''], Int32Arr [2147483647])]"
  by (simp add: unravel_pytree_def trunc_def saturate_def)

lemma int64_exact_small:
  "(\<And>p ws w. (p, Int64Arr ws) \<in> set t \<Longrightarrow> w \<in> set ws \<Longrightarrow> \<bar>sint w\<bar> < 2 ^ 53) \<Longrightarrow> int64_exact t"
proof -
  assume small: "\<And>p ws w. (p, Int64Arr ws) \<in> set t \<Longrightarrow> w \<in> set ws \<Longrightarrow> \<bar>sint w\<bar> < 2 ^ 53"
  have "int64_exact_leaf a" if "(p, a) \<in> set t" for p a
  proof (cases a)
    case (Int64Arr ws)
    with that small show ?thesis
      by (auto simp: list_all_iff intro!: round_f64_exact)
  qed simp_all
  then show ?thesis
    by (auto simp: int64_exact_def list_all_iff)
qed

theorem C4_witness:
  "tree_shape example_dx = tree_shape example_dx \<and> int64_exact example_dx
   \<and> unravel_pytree example_dx (ravel example_dx) = Inr example_dx
   \<and> length [0, 0, 1, 0, 0, 2, 0 :: real] = length (ravel example_dx)
   \<and> (\<exists>s'. unravel_pytree example_dx [0, 0, 1, 0, 0, 2, 0] = Inr s'
         \<and> ravel s' = [0, 0, 1, 0, 0, 2, 0])"
proof -
  have len: "length [0, 0, 1, 0, 0, 2, 0 :: real] = length (ravel example_dx)"
    by (simp add: example_dx_def)
  have ex: "int64_exact example_dx"
    by (simp add: int64_exact_def example_dx_def)
  have "list_all2 representable (dtype_positions example_dx) [0, 0, 1, 0, 0, 2, 0]"
    by (simp add: example_dx_def dtype_positions_def)
  then have reps: "\<forall>k < length [0, 0, 1, 0, 0, 2, 0 :: real].
      representable (dtype_positions example_dx ! k) ([0, 0, 1, 0, 0, 2, 0] ! k)"
    using list_all2_nthD[of representable "dtype_positions example_dx" "[0, 0, 1, 0, 0, 2, 0]"]
      list_all2_lengthD[of representable "dtype_positions example_dx" "[0, 0, 1, 0, 0, 2, 0]"]
    by metis
  note t = C4_codec_roundtrip [of example_dx example_dx "[0, 0, 1, 0, 0, 2, 0]"]
  have a: "unravel_pytree example_dx (ravel example_dx) = Inr example_dx"
    by (rule mp[OF t[THEN conjunct1]]) (intro conjI refl ex)
  have b: "\<exists>s'. unravel_pytree example_dx [0, 0, 1, 0, 0, 2, 0] = Inr s'
         \<and> ravel s' = [0, 0, 1, 0, 0, 2, 0]"
  proof (rule mp[OF t[THEN conjunct2, THEN conjunct2]])
    show "length [0, 0, 1, 0, 0, 2, 0 :: real] = length (ravel example_dx)
      \<and> (\<forall>k < length [0, 0, 1, 0, 0, 2, 0 :: real].
            representable (dtype_positions example_dx ! k) ([0, 0, 1, 0, 0, 2, 0] ! k))"
      using len reps by (rule conjI)
  qed
  show ?thesis
    by (intro conjI refl ex a len b)
qed

subsection \<open>The finite-difference backward pass\<close>

lemma broadcast2_same: "length a = length b \<Longrightarrow> broadcast2 f a b = Inr (map2 f a b)"
  by (simp add: broadcast2_def)

lemma fd_row_same:
  assumes "length p = n" "length out = n" "length (sensitivity_mask c) = n"
  shows "fd_row c p out
           = Inr (map (\<lambda>j. sensitivity_mask c ! j * (p ! j - out ! j) / eps c) [0 ..< n])"
proof -
  have "map (\<lambda>x. x / eps c) (map2 (*) (sensitivity_mask c) (map2 (-) p out))
          = map (\<lambda>j. sensitivity_mask c ! j * (p ! j - out ! j) / eps c) [0 ..< n]"
    using assms by (intro nth_equalityI) simp_all
  with assms show ?thesis
    by (simp add: fd_row_def broadcast2_same)
qed

lemma perturb_vector:
  "map2 (+) u ((replicate (length u) 0)[i := e]) = u[i := u ! i + (e::real)]"
proof (cases "i < length u")
  case True
  then show ?thesis
    by (intro nth_equalityI) (simp_all add: nth_list_update)
next
  case False
  then show ?thesis
    by (intro nth_equalityI) simp_all
qed

lemma scatter_fold_nth:
  "k < length base \<Longrightarrow>
     fold (\<lambda>(i, row) acc. acc[i := row]) (zip idxs (map f idxs)) base ! k
       = (if k \<in> set idxs then f k else base ! k)"
  by (induction idxs arbitrary: base) (auto simp: nth_list_update)

lemma scatter_fold_length [simp]:
  "length (fold (\<lambda>(i, row) acc. acc[i := row]) ps base) = length base"
  by (induction ps arbitrary: base) auto

lemma scatter_rows_same:
  assumes "\<And>i. i \<in> set idxs \<Longrightarrow> length (f i) = m"
  shows "\<exists>M. scatter_rows (map f idxs) idxs (n, m) = Inr M \<and> length M = n
           \<and> (\<forall>k < n. M ! k = (if k \<in> set idxs then f k else replicate m 0))"
proof -
  have "vmap (broadcast_row m) (map f idxs) = Inr (map (\<lambda>r. r) (map f idxs))"
    using assms by (intro vmap_Inr) (auto simp: broadcast_row_def)
  then show ?thesis
    by (simp add: scatter_rows_def scatter_fold_nth)
qed

lemma dot_zero [simp]: "dot (replicate n 0) v = 0"
proof -
  have "map2 (*) (replicate n (0::real)) v = replicate (min n (length v)) 0"
    by (rule nth_equalityI) simp_all
  then show ?thesis by (simp add: dot_def sum_list_replicate)
qed

lemma dot_sum: "length a = length b \<Longrightarrow> dot a b = (\<Sum>j < length a. a ! j * b ! j)"
proof -
  assume len: "length a = length b"
  then have "map2 (*) a b = map (\<lambda>j. a ! j * b ! j) [0 ..< length a]"
    by (intro nth_equalityI) simp_all
  then show ?thesis
    by (simp add: dot_def interv_sum_list_conv_sum_set_nat atLeast0LessThan)
qed

lemma matvec_same:
  "(\<And>row. row \<in> set M \<Longrightarrow> length row = length v) \<Longrightarrow> matvec M v = Inr (map (\<lambda>row. dot row v) M)"
  by (simp add: matvec_def list_all_iff)

lemma length_step_fn:
  assumes "shape_preserving mjx_step set_control_fn dx_ref n_u"
    and "tree_shape d = tree_shape dx_ref" and "length u = n_u"
  shows "length (ravel (step_fn mjx_step set_control_fn d u)) = length (ravel dx_ref)"
  using assms unfolding shape_preserving_def
  by (intro tree_shape_length_ravel) blast

lemma fdu_plus_eq:
  assumes c: "build_fd_cache dx_ref u_ref tf e = Inr c"
    and dx: "tree_shape dx_in = tree_shape dx_ref"
    and u: "length u_in = length u_ref"
    and sp: "shape_preserving mjx_step set_control_fn dx_ref (length u_ref)"
  shows "fdu_plus mjx_step set_control_fn c dx_in u_in
           (ravel (step_fn mjx_step set_control_fn dx_in u_in)) i
         = Inr (spec_control_row mjx_step set_control_fn c dx_in u_in i)"
proof -
  note b = build_fd_cache_Inr[OF c]
  let ?n = "length (ravel dx_ref)"
  have out: "length (ravel (step_fn mjx_step set_control_fn dx_in u_in)) = ?n"
    by (rule length_step_fn[OF sp dx u])
  have pert: "length (ravel (step_fn mjx_step set_control_fn dx_in
                  (u_in[i := u_in ! i + eps c]))) = ?n"
    by (rule length_step_fn[OF sp dx]) (simp add: u)
  have mask: "length (sensitivity_mask c) = ?n"
    by (simp add: b(2))
  show ?thesis
    unfolding fdu_plus_def Let_def perturb_vector spec_control_row_def b(5)
    by (rule fd_row_same[OF pert out mask])
qed

lemma Ju_array_eq:
  assumes c: "build_fd_cache dx_ref u_ref tf e = Inr c"
    and dx: "tree_shape dx_in = tree_shape dx_ref"
    and u: "length u_in = length u_ref"
    and sp: "shape_preserving mjx_step set_control_fn dx_ref (length u_ref)"
  shows "Ju_array mjx_step set_control_fn c dx_in u_in (step_fn mjx_step set_control_fn dx_in u_in)
         = Inr (map (spec_control_row mjx_step set_control_fn c dx_in u_in) [0 ..< num_u_dims c])"
  unfolding Ju_array_def
  by (rule vmap_Inr) (rule fdu_plus_eq[OF c dx u sp])

lemma fdx_for_index_eq:
  assumes c: "build_fd_cache dx_ref u_ref tf e = Inr c"
    and dx: "tree_shape dx_in = tree_shape dx_ref"
    and u: "length u_in = length u_ref"
    and sp: "shape_preserving mjx_step set_control_fn dx_ref (length u_ref)"
  shows "fdx_for_index mjx_step set_control_fn c (ravel dx_in) u_in
           (ravel (step_fn mjx_step set_control_fn dx_in u_in)) idx
         = Inr (spec_state_row mjx_step set_control_fn c dx_ref dx_in u_in idx)"
proof -
  note b = build_fd_cache_Inr[OF c]
  let ?n = "length (ravel dx_ref)"
  let ?v = "(ravel dx_in)[idx := ravel dx_in ! idx + eps c]"
  have len: "length ?v = ?n"
    using tree_shape_length_ravel[OF dx] by simp
  have unr: "unravel_dx c ?v = Inr (unravel_list dx_ref ?v)"
    using len by (simp add: b(4) unravel_pytree_def)
  have shape: "tree_shape (unravel_list dx_ref ?v) = tree_shape dx_ref"
    by (rule tree_shape_unravel_list[OF len])
  have out: "length (ravel (step_fn mjx_step set_control_fn dx_in u_in)) = ?n"
    by (rule length_step_fn[OF sp dx u])
  have pert: "length (ravel (step_fn mjx_step set_control_fn (unravel_list dx_ref ?v) u_in)) = ?n"
    by (rule length_step_fn[OF sp shape u])
  have mask: "length (sensitivity_mask c) = ?n"
    by (simp add: b(2))
  show ?thesis
    unfolding fdx_for_index_def Let_def perturb_vector unr rbind_Inr spec_state_row_def b(5)
    by (rule fd_row_same[OF pert out mask])
qed

lemma Jx_rows_eq:
  assumes c: "build_fd_cache dx_ref u_ref tf e = Inr c"
    and dx: "tree_shape dx_in = tree_shape dx_ref"
    and u: "length u_in = length u_ref"
    and sp: "shape_preserving mjx_step set_control_fn dx_ref (length u_ref)"
  shows "Jx_rows mjx_step set_control_fn c dx_in u_in (step_fn mjx_step set_control_fn dx_in u_in)
         = Inr (map (spec_state_row mjx_step set_control_fn c dx_ref dx_in u_in) (inner_idx c))"
  unfolding Jx_rows_def
  by (rule vmap_Inr) (rule fdx_for_index_eq[OF c dx u sp])

lemma length_spec_state_row [simp]:
  "length (spec_state_row mjx_step set_control_fn c dx_ref dx u idx) = dx_size c"
  by (simp add: spec_state_row_def)

lemma length_spec_control_row [simp]:
  "length (spec_control_row mjx_step set_control_fn c dx u i) = dx_size c"
  by (simp add: spec_control_row_def)

lemma Jx_array_eq:
  assumes c: "build_fd_cache dx_ref u_ref tf e = Inr c"
    and dx: "tree_shape dx_in = tree_shape dx_ref"
    and u: "length u_in = length u_ref"
    and sp: "shape_preserving mjx_step set_control_fn dx_ref (length u_ref)"
  shows "\<exists>Jx. Jx_array mjx_step set_control_fn c dx_in u_in
                 (step_fn mjx_step set_control_fn dx_in u_in) = Inr Jx
           \<and> length Jx = dx_size c
           \<and> (\<forall>k < dx_size c. Jx ! k =
                 (if k \<in> set (inner_idx c)
                  then spec_state_row mjx_step set_control_fn c dx_ref dx_in u_in k
                  else replicate (dx_size c) 0))"
proof -
  note b = build_fd_cache_Inr[OF c]
  have n: "length (ravel dx_in) = dx_size c"
    using tree_shape_length_ravel[OF dx] by (simp add: b(5))
  show ?thesis
    unfolding Jx_array_def Jx_rows_eq[OF c dx u sp] rbind_Inr Let_def n
    by (rule scatter_rows_same) simp
qed

lemma size_fix_leaf:
  "(case gl of Float0 \<Rightarrow> True | Cot v \<Rightarrow> length v = size_arr a) \<Longrightarrow> size_arr (fix_leaf a gl) = size_arr a"
  by (cases gl; cases a) simp_all

lemma map_g_to_dinput_eq:
  assumes "cotangent_like dx g"
  shows "\<exists>mapped_g. map_g_to_dinput dx g = Inr mapped_g
           \<and> length mapped_g = length dx
           \<and> (\<forall>i < length dx. mapped_g ! i = (fst (dx ! i), fix_leaf (snd (dx ! i)) (snd (g ! i))))
           \<and> length (ravel mapped_g) = length (ravel dx)"
proof -
  from assms have paths: "map fst g = map fst dx"
    and all: "list_all (\<lambda>((p, a), (q, g_leaf)). case g_leaf of Float0 \<Rightarrow> True
                  | Cot v \<Rightarrow> length v = size_arr a) (zip dx g)"
    by (simp_all add: cotangent_like_def)
  from paths have len: "length g = length dx"
    by (rule map_eq_imp_length_eq)
  have sizes: "(case snd (g ! i) of Float0 \<Rightarrow> True | Cot v \<Rightarrow> length v = size_arr (snd (dx ! i)))"
    if "i < length g" for i
  proof -
    from that len have "(zip dx g) ! i = (dx ! i, g ! i)" and "i < length (zip dx g)"
      by simp_all
    with all show ?thesis
      by (auto simp: list_all_length split_def split: cotangent.splits dest!: spec[of _ i])
  qed
  let ?m = "map2 (\<lambda>(p, d_leaf) (q, g_leaf). (p, fix_leaf d_leaf g_leaf)) dx g"
  have nth: "?m ! i = (fst (dx ! i), fix_leaf (snd (dx ! i)) (snd (g ! i)))" if "i < length dx" for i
    using that len by (simp add: split_def)
  have "map (\<lambda>(p, a). size_arr a) ?m = map (\<lambda>(p, a). size_arr a) dx"
  proof (rule nth_equalityI)
    show "length (map (\<lambda>(p, a). size_arr a) ?m) = length (map (\<lambda>(p, a). size_arr a) dx)"
      using len by simp
  next
    fix i assume "i < length (map (\<lambda>(p, a). size_arr a) ?m)"
    then have i: "i < length dx" using len by simp
    then have "i < length g" using len by simp
    from size_fix_leaf[OF sizes[OF this]] nth[OF i] i len
    show "map (\<lambda>(p, a). size_arr a) ?m ! i = map (\<lambda>(p, a). size_arr a) dx ! i"
      by (simp add: split_def)
  qed
  then have "length (ravel ?m) = length (ravel dx)"
    by (simp only: length_ravel)
  moreover have "map_g_to_dinput dx g = Inr ?m"
    using paths by (simp add: map_g_to_dinput_def)
  moreover have "length ?m = length dx" using len by simp
  ultimately show ?thesis using nth by blast
qed

lemma step_fn_bwd_eq:
  assumes c: "build_fd_cache dx_ref u_ref tf e = Inr c"
    and dx: "tree_shape dx_in = tree_shape dx_ref"
    and u: "length u_in = length u_ref"
    and sp: "shape_preserving mjx_step set_control_fn dx_ref (length u_ref)"
    and mg: "map_g_to_dinput dx_in g = Inr mapped_g"
    and lg: "length (ravel mapped_g) = length (ravel dx_in)"
    and Jx: "Jx_array mjx_step set_control_fn c dx_in u_in
                 (step_fn mjx_step set_control_fn dx_in u_in) = Inr Jx"
  shows "step_fn_bwd mjx_step set_control_fn c
           (snd (step_fn_fwd mjx_step set_control_fn dx_in u_in)) g
         = Inr (unravel_list dx_ref (map (\<lambda>row. dot row (ravel mapped_g)) Jx),
                map (\<lambda>row. dot row (ravel mapped_g))
                  (map (spec_control_row mjx_step set_control_fn c dx_in u_in) [0 ..< num_u_dims c]))"
proof -
  note b = build_fd_cache_Inr[OF c]
  have n: "length (ravel mapped_g) = dx_size c"
    using lg tree_shape_length_ravel[OF dx] by (simp add: b(5))
  from Jx_array_eq[OF c dx u sp] Jx
  have JxL: "length Jx = dx_size c"
    and Jxrows: "\<And>k. k < dx_size c \<Longrightarrow> length (Jx ! k) = dx_size c"
    by (auto split: if_splits)
  have mvu: "matvec (map (spec_control_row mjx_step set_control_fn c dx_in u_in) [0 ..< num_u_dims c])
               (ravel mapped_g)
           = Inr (map (\<lambda>row. dot row (ravel mapped_g))
                  (map (spec_control_row mjx_step set_control_fn c dx_in u_in) [0 ..< num_u_dims c]))"
    by (rule matvec_same) (auto simp: n)
  have mvx: "matvec Jx (ravel mapped_g) = Inr (map (\<lambda>row. dot row (ravel mapped_g)) Jx)"
  proof (rule matvec_same)
    fix row assume "row \<in> set Jx"
    then obtain k where "k < length Jx" "row = Jx ! k" by (auto simp: in_set_conv_nth)
    with Jxrows JxL show "length row = length (ravel mapped_g)" by (simp add: n)
  qed
  have unr: "unravel_dx c (map (\<lambda>row. dot row (ravel mapped_g)) Jx)
           = Inr (unravel_list dx_ref (map (\<lambda>row. dot row (ravel mapped_g)) Jx))"
    using JxL by (simp add: b(4) b(5) unravel_pytree_def)
  have rs: "reshape_like u_in (map (\<lambda>row. dot row (ravel mapped_g))
                  (map (spec_control_row mjx_step set_control_fn c dx_in u_in) [0 ..< num_u_dims c]))
          = Inr (map (\<lambda>row. dot row (ravel mapped_g))
                  (map (spec_control_row mjx_step set_control_fn c dx_in u_in) [0 ..< num_u_dims c]))"
    by (simp add: reshape_like_def b(6) u)
  show ?thesis
    unfolding step_fn_bwd_def step_fn_fwd_def Let_def snd_conv prod.case mg rbind_Inr
      Ju_array_eq[OF c dx u sp] Jx mvu mvx unr rs
    by (rule refl)
qed

lemma ravel_nth_leaf:
  assumes "i < length t" and "j < size_arr (snd (t ! i))"
  shows "ravel t ! (leaf_start t i + j) = ravel_leaf (snd (t ! i)) ! j"
proof -
  have "t = take i t @ t ! i # drop (Suc i) t"
    using assms(1) by (rule id_take_nth_drop)
  then have "ravel t = ravel (take i t) @ ravel_leaf (snd (t ! i)) @ ravel (drop (Suc i) t)"
    by (metis ravel_append ravel_Cons prod.collapse)
  then show ?thesis
    using assms(2) by (simp add: leaf_start_def nth_append)
qed

lemma ravel_leaf_zeros_like: "j < size_arr a \<Longrightarrow> ravel_leaf (zeros_like a) ! j = 0"
  by (cases a) simp_all

lemma size_zeros_like [simp]: "size_arr (zeros_like a) = size_arr a"
  by (cases a) simp_all

lemma ravel_leaf_zeros: "ravel_leaf (zeros_like a) = replicate (size_arr a) 0"
  by (cases a) simp_all

lemma ravel_leaf_fix_leaf:
  "ravel_leaf (fix_leaf a g_leaf)
     = (case g_leaf of Float0 \<Rightarrow> replicate (size_arr a) 0 | Cot v \<Rightarrow> v)"
  by (cases g_leaf) (simp_all add: ravel_leaf_zeros)

lemma ravel_map2_fix_leaf:
  "ravel (map2 (\<lambda>(p, d_leaf) (q, g_leaf). (p, fix_leaf d_leaf g_leaf)) dx g) = spec_flat_g dx g"
proof (induction dx arbitrary: g)
  case Nil
  then show ?case by (simp add: spec_flat_g_def)
next
  case (Cons d dx)
  show ?case
  proof (cases g)
    case Nil
    then show ?thesis by (simp add: spec_flat_g_def)
  next
    case (Cons gl g')
    with Cons.IH[of g'] show ?thesis
      by (cases d; cases gl) (simp add: spec_flat_g_def ravel_leaf_fix_leaf)
  qed
qed

lemma ravel_map_g_to_dinput:
  "map_g_to_dinput dx g = Inr mapped_g \<Longrightarrow> ravel mapped_g = spec_flat_g dx g"
  by (auto simp: map_g_to_dinput_def ravel_map2_fix_leaf split: if_splits)

text \<open>
  Claim C1. In the backward pass for the residuals of a forward step, the control Jacobian
  has one row per control dimension; row \<open>i\<close> is the sensitivity mask times the difference
  between the flattened step from the same state with only control coordinate \<open>i\<close> raised
  by \<open>eps\<close> and the flattened unperturbed step, divided by \<open>eps\<close> (a forward difference).
  The returned control gradient is that matrix times the flattened upstream gradient: the
  leaves of \<open>g\<close> one after the other, a \<^verbatim>\<open>float0\<close> leaf counted as zeros. The backward
  pass returns.
\<close>

theorem C1_control_jacobian:
  assumes c: "build_fd_cache dx_ref u_ref tf e = Inr c"
    and dx: "tree_shape dx_in = tree_shape dx_ref"
    and u: "length u_in = length u_ref"
    and sp: "shape_preserving mjx_step set_control_fn dx_ref (length u_ref)"
    and g: "cotangent_like dx_in g"
  shows "\<exists>Ju mapped_g d_x d_u.
           Ju_array mjx_step set_control_fn c dx_in u_in
             (step_fn mjx_step set_control_fn dx_in u_in) = Inr Ju
         \<and> map_g_to_dinput dx_in g = Inr mapped_g
         \<and> ravel mapped_g = spec_flat_g dx_in g
         \<and> length mapped_g = length dx_in
         \<and> (\<forall>i < length dx_in.
               (snd (g ! i) = Float0 \<longrightarrow> snd (mapped_g ! i) = zeros_like (snd (dx_in ! i)))
             \<and> (\<forall>v. snd (g ! i) = Cot v \<longrightarrow> snd (mapped_g ! i) = FloatArr v))
         \<and> step_fn_bwd mjx_step set_control_fn c
             (snd (step_fn_fwd mjx_step set_control_fn dx_in u_in)) g = Inr (d_x, d_u)
         \<and> length Ju = num_u_dims c \<and> length d_u = length u_in
         \<and> (\<forall>i < num_u_dims c.
               Ju ! i = spec_control_row mjx_step set_control_fn c dx_in u_in i
             \<and> d_u ! i = (\<Sum>j < dx_size c. Ju ! i ! j * ravel mapped_g ! j)
             \<and> d_u ! i = (\<Sum>j < dx_size c.
                   spec_control_row mjx_step set_control_fn c dx_in u_in i ! j
                     * spec_flat_g dx_in g ! j))"
proof -
  note b = build_fd_cache_Inr[OF c]
  let ?Ju = "map (spec_control_row mjx_step set_control_fn c dx_in u_in) [0 ..< num_u_dims c]"
  from map_g_to_dinput_eq[OF g] obtain mapped_g
    where mg: "map_g_to_dinput dx_in g = Inr mapped_g"
      and lm: "length mapped_g = length dx_in"
      and nth: "\<forall>i < length dx_in.
          mapped_g ! i = (fst (dx_in ! i), fix_leaf (snd (dx_in ! i)) (snd (g ! i)))"
      and lg: "length (ravel mapped_g) = length (ravel dx_in)"
    by blast
  note flat = ravel_map_g_to_dinput[OF mg]
  from Jx_array_eq[OF c dx u sp] obtain Jx
    where Jx: "Jx_array mjx_step set_control_fn c dx_in u_in
                 (step_fn mjx_step set_control_fn dx_in u_in) = Inr Jx"
    by blast
  have n: "length (ravel mapped_g) = dx_size c"
    using lg tree_shape_length_ravel[OF dx] by (simp add: b(5))
  have leaves: "(snd (g ! i) = Float0 \<longrightarrow> snd (mapped_g ! i) = zeros_like (snd (dx_in ! i)))
      \<and> (\<forall>v. snd (g ! i) = Cot v \<longrightarrow> snd (mapped_g ! i) = FloatArr v)"
    if "i < length dx_in" for i
    using nth that by simp
  have rows0: "?Ju ! i = spec_control_row mjx_step set_control_fn c dx_in u_in i
      \<and> map (\<lambda>row. dot row (ravel mapped_g)) ?Ju ! i
          = (\<Sum>j < dx_size c. ?Ju ! i ! j * ravel mapped_g ! j)"
    if "i < num_u_dims c" for i
    using that dot_sum[of "spec_control_row mjx_step set_control_fn c dx_in u_in i" "ravel mapped_g"]
    by (simp add: n)
  have rows: "?Ju ! i = spec_control_row mjx_step set_control_fn c dx_in u_in i
      \<and> map (\<lambda>row. dot row (ravel mapped_g)) ?Ju ! i
          = (\<Sum>j < dx_size c. ?Ju ! i ! j * ravel mapped_g ! j)
      \<and> map (\<lambda>row. dot row (ravel mapped_g)) ?Ju ! i
          = (\<Sum>j < dx_size c. spec_control_row mjx_step set_control_fn c dx_in u_in i ! j
                * spec_flat_g dx_in g ! j)"
    if i: "i < num_u_dims c" for i
  proof -
    from rows0[OF i] have 1: "?Ju ! i = spec_control_row mjx_step set_control_fn c dx_in u_in i"
      and 2: "map (\<lambda>row. dot row (ravel mapped_g)) ?Ju ! i
          = (\<Sum>j < dx_size c. ?Ju ! i ! j * ravel mapped_g ! j)"
      by blast+
    from 2 have "map (\<lambda>row. dot row (ravel mapped_g)) ?Ju ! i
          = (\<Sum>j < dx_size c. spec_control_row mjx_step set_control_fn c dx_in u_in i ! j
                * spec_flat_g dx_in g ! j)"
      unfolding 1 flat .
    with 1 2 show ?thesis by blast
  qed
  show ?thesis
    using Ju_array_eq[OF c dx u sp] mg flat lm leaves
      step_fn_bwd_eq[OF c dx u sp mg lg Jx] rows
    by (intro exI[of _ ?Ju] exI[of _ mapped_g]
        exI[of _ "unravel_list dx_ref (map (\<lambda>row. dot row (ravel mapped_g)) Jx)"]
        exI[of _ "map (\<lambda>row. dot row (ravel mapped_g)) ?Ju"])
      (simp add: b(6) u)
qed

text \<open>
  Claim C2. The state perturbations are done for the indices in \<open>inner_idx\<close> only: there is
  one row per inner index, the forward difference of the step from the state with that one
  flat coordinate raised by \<open>eps\<close> and the unperturbed control. The rows are scattered into a
  square matrix at the inner indices; every other row is zero, and the returned state
  gradient is zero at every flat coordinate outside \<open>inner_idx\<close>.
\<close>

theorem C2_state_jacobian:
  assumes c: "build_fd_cache dx_ref u_ref tf e = Inr c"
    and dx: "tree_shape dx_in = tree_shape dx_ref"
    and u: "length u_in = length u_ref"
    and sp: "shape_preserving mjx_step set_control_fn dx_ref (length u_ref)"
    and g: "cotangent_like dx_in g"
  shows "\<exists>Jx d_x d_u.
           Jx_rows mjx_step set_control_fn c dx_in u_in
             (step_fn mjx_step set_control_fn dx_in u_in)
             = Inr (map (spec_state_row mjx_step set_control_fn c dx_ref dx_in u_in) (inner_idx c))
         \<and> Jx_array mjx_step set_control_fn c dx_in u_in
             (step_fn mjx_step set_control_fn dx_in u_in) = Inr Jx
         \<and> length Jx = dx_size c
         \<and> (\<forall>k < dx_size c. Jx ! k =
               (if k \<in> set (inner_idx c)
                then spec_state_row mjx_step set_control_fn c dx_ref dx_in u_in k
                else replicate (dx_size c) 0))
         \<and> step_fn_bwd mjx_step set_control_fn c
             (snd (step_fn_fwd mjx_step set_control_fn dx_in u_in)) g = Inr (d_x, d_u)
         \<and> tree_shape d_x = tree_shape dx_ref
         \<and> (\<forall>k < dx_size c. k \<notin> set (inner_idx c) \<longrightarrow> ravel d_x ! k = 0)"
proof -
  note b = build_fd_cache_Inr[OF c]
  from map_g_to_dinput_eq[OF g] obtain mapped_g
    where mg: "map_g_to_dinput dx_in g = Inr mapped_g"
      and lg: "length (ravel mapped_g) = length (ravel dx_in)"
    by blast
  from Jx_array_eq[OF c dx u sp] obtain Jx
    where Jx: "Jx_array mjx_step set_control_fn c dx_in u_in
                 (step_fn mjx_step set_control_fn dx_in u_in) = Inr Jx"
      and JxL: "length Jx = dx_size c"
      and Jxk: "\<forall>k < dx_size c. Jx ! k =
                 (if k \<in> set (inner_idx c)
                  then spec_state_row mjx_step set_control_fn c dx_ref dx_in u_in k
                  else replicate (dx_size c) 0)"
    by blast
  let ?f = "map (\<lambda>row. dot row (ravel mapped_g)) Jx"
  let ?d_x = "unravel_list dx_ref ?f"
  have len: "length ?f = length (ravel dx_ref)"
    by (simp add: JxL b(5))
  have shape: "tree_shape ?d_x = tree_shape dx_ref"
    by (rule tree_shape_unravel_list[OF len])
  have zero: "ravel ?d_x ! k = 0" if "k < dx_size c" "k \<notin> set (inner_idx c)" for k
  proof -
    from that Jxk have "Jx ! k = replicate (dx_size c) 0" by simp
    with that(1) JxL have "?f ! k = 0" by simp
    moreover have "k < length ?f" using that(1) JxL by simp
    ultimately show ?thesis
      unfolding ravel_unravel_list[OF len] by (intro retyped_nth_zero[OF len])
  qed
  show ?thesis
    using Jx_rows_eq[OF c dx u sp] Jx JxL Jxk step_fn_bwd_eq[OF c dx u sp mg lg Jx] shape zero
    by (intro exI[of _ Jx] exI[of _ ?d_x]
        exI[of _ "map (\<lambda>row. dot row (ravel mapped_g))
          (map (spec_control_row mjx_step set_control_fn c dx_in u_in) [0 ..< num_u_dims c])"])
      simp
qed


lemma tree_shape_example_mjx_step: "tree_shape (example_mjx_step d) = tree_shape d"
  by (auto simp: tree_shape_def example_mjx_step_def split: array.splits)

lemma tree_shape_example_set_control: "tree_shape (example_set_control d u) = tree_shape d"
  by (auto simp: tree_shape_def example_set_control_def)

lemma example_shape_preserving:
  "shape_preserving example_mjx_step example_set_control dx_ref n"
  by (simp add: shape_preserving_def step_fn_def tree_shape_example_mjx_step
      tree_shape_example_set_control)

lemma example_cotangent_like: "cotangent_like example_dx example_g"
  by (simp add: cotangent_like_def example_dx_def example_g_def)

lemma example_flat_g: "spec_flat_g example_dx example_g = [0, 1, 2, 3, 0, 1, 5]"
  by (simp add: spec_flat_g_def example_dx_def example_g_def)

theorem C1_witness:
  "build_fd_cache example_dx [0] None (1 / 1000000) = Inr example_cache
   \<and> shape_preserving example_mjx_step example_set_control example_dx (length [0 :: real])
   \<and> cotangent_like example_dx example_g
   \<and> (\<exists>Ju mapped_g d_x d_u.
           Ju_array example_mjx_step example_set_control example_cache example_dx [0]
             (step_fn example_mjx_step example_set_control example_dx [0]) = Inr Ju
         \<and> map_g_to_dinput example_dx example_g = Inr mapped_g
         \<and> ravel mapped_g = [0, 1, 2, 3, 0, 1, 5]
         \<and> step_fn_bwd example_mjx_step example_set_control example_cache
             (snd (step_fn_fwd example_mjx_step example_set_control example_dx [0])) example_g
             = Inr (d_x, d_u)
         \<and> length Ju = 1 \<and> length d_u = 1
         \<and> Ju ! 0 = spec_control_row example_mjx_step example_set_control example_cache
                        example_dx [0] 0)"
proof -
  from C1_control_jacobian [OF build_example refl refl example_shape_preserving
      example_cotangent_like]
  obtain Ju mapped_g d_x d_u where
    1: "Ju_array example_mjx_step example_set_control example_cache example_dx [0]
             (step_fn example_mjx_step example_set_control example_dx [0]) = Inr Ju"
    and 2: "map_g_to_dinput example_dx example_g = Inr mapped_g"
    and 3: "ravel mapped_g = spec_flat_g example_dx example_g"
    and 4: "step_fn_bwd example_mjx_step example_set_control example_cache
             (snd (step_fn_fwd example_mjx_step example_set_control example_dx [0])) example_g
             = Inr (d_x, d_u)"
    and 5: "length Ju = num_u_dims example_cache" "length d_u = length [0 :: real]"
    and 6: "\<forall>i < num_u_dims example_cache.
               Ju ! i = spec_control_row example_mjx_step example_set_control example_cache
                          example_dx [0] i
             \<and> d_u ! i = (\<Sum>j < dx_size example_cache. Ju ! i ! j * ravel mapped_g ! j)
             \<and> d_u ! i = (\<Sum>j < dx_size example_cache.
                   spec_control_row example_mjx_step example_set_control example_cache
                     example_dx [0] i ! j * spec_flat_g example_dx example_g ! j)"
    by blast
  have n: "num_u_dims example_cache = 1" by (simp add: example_cache_def)
  from 6 n have 7: "Ju ! 0 = spec_control_row example_mjx_step example_set_control example_cache
                        example_dx [0] 0"
    by simp
  from 3 have 8: "ravel mapped_g = [0, 1, 2, 3, 0, 1, 5]"
    by (simp only: example_flat_g)
  from 5 n have 9: "length Ju = 1" "length d_u = 1" by simp_all
  from 1 2 8 4 9 7 show ?thesis
    using build_example example_shape_preserving example_cotangent_like by blast
qed

theorem C2_witness:
  "build_fd_cache example_dx [0] None (1 / 1000000) = Inr example_cache
   \<and> shape_preserving example_mjx_step example_set_control example_dx (length [0 :: real])
   \<and> cotangent_like example_dx example_g
   \<and> (\<exists>d_x d_u.
           step_fn_bwd example_mjx_step example_set_control example_cache
             (snd (step_fn_fwd example_mjx_step example_set_control example_dx [0])) example_g
             = Inr (d_x, d_u)
         \<and> tree_shape d_x = tree_shape example_dx
         \<and> ravel d_x ! 0 = 0 \<and> ravel d_x ! 1 = 0)"
proof -
  from C2_state_jacobian [OF build_example refl refl example_shape_preserving
      example_cotangent_like]
  obtain d_x d_u where bwd: "step_fn_bwd example_mjx_step example_set_control example_cache
             (snd (step_fn_fwd example_mjx_step example_set_control example_dx [0])) example_g
             = Inr (d_x, d_u)"
    and shape: "tree_shape d_x = tree_shape example_dx"
    and zero: "\<forall>k < dx_size example_cache. k \<notin> set (inner_idx example_cache) \<longrightarrow> ravel d_x ! k = 0"
    by blast
  from zero have "ravel d_x ! 0 = 0" "ravel d_x ! 1 = 0"
    by (simp_all add: example_cache_def)
  with bwd shape show ?thesis
    using build_example example_shape_preserving example_cotangent_like by blast
qed


subsection \<open>The rollout and the context\<close>

lemma scan_Suc_proj:
  "scan f c (Suc n) = (fst (scan f (fst (f c)) n), snd (f c) # snd (scan f (fst (f c)) n))"
  by (simp split: prod.splits)

lemma scan_length [simp]: "length (snd (scan f c n)) = n"
  by (induction n arbitrary: c) (simp_all add: scan_Suc_proj del: scan.simps(2))

lemma scan_fst_shift: "fst (scan f c (Suc n)) = fst (scan f (fst (f c)) n)"
  by (simp add: scan_Suc_proj del: scan.simps(2))

lemma scan_fst_Suc: "fst (scan f c (Suc n)) = fst (f (fst (scan f c n)))"
proof (induction n arbitrary: c)
  case 0
  show ?case by (simp add: scan_Suc_proj del: scan.simps(2))
next
  case (Suc n)
  have "fst (scan f c (Suc (Suc n))) = fst (scan f (fst (f c)) (Suc n))"
    by (rule scan_fst_shift)
  also have "\<dots> = fst (f (fst (scan f (fst (f c)) n)))"
    by (rule Suc.IH)
  also have "\<dots> = fst (f (fst (scan f c (Suc n))))"
    by (simp only: scan_fst_shift)
  finally show ?case .
qed

lemma scan_nth: "k < n \<Longrightarrow> snd (scan f c n) ! k = snd (f (fst (scan f c k)))"
proof (induction n arbitrary: c k)
  case 0
  then show ?case by simp
next
  case (Suc n)
  show ?case
  proof (cases k)
    case 0
    then show ?thesis by (simp add: scan_Suc_proj del: scan.simps(2))
  next
    case (Suc j)
    with Suc.prems have j: "j < n" by simp
    have "snd (scan f c (Suc n)) ! k = snd (scan f (fst (f c)) n) ! j"
      by (simp add: Suc scan_Suc_proj del: scan.simps(2))
    also have "\<dots> = snd (f (fst (scan f (fst (f c)) j)))"
      by (rule Suc.IH[OF j])
    also have "\<dots> = snd (f (fst (scan f c k)))"
      by (simp only: Suc scan_fst_shift)
    finally show ?thesis .
  qed
qed

lemma step_fst:
  "fst (fst (step mjx_step random_split ctx net carry))
     = mjx_step (mx (cfg ctx)) (controlled random_split ctx net carry)"
  by (simp add: step_def controlled_def Let_def split: prod.splits)

lemma step_snd:
  "snd (step mjx_step random_split ctx net carry)
     = state_encoder (cbs ctx) (mx (cfg ctx)) (fst (fst (step mjx_step random_split ctx net carry)))
       @ ctrl (fst (fst (step mjx_step random_split ctx net carry)))
       @ cost_fn ctx (mx (cfg ctx)) (controlled random_split ctx net carry)
       @ [time (fst (fst (step mjx_step random_split ctx net carry)))]"
  by (simp add: step_def controlled_def Let_def split: prod.splits)

lemma length_cost_fn [simp]: "length (cost_fn ctx m dx) = 1"
  by (simp add: cost_fn_def Let_def)

text \<open>The four slices of a row.\<close>

lemma row_cost:
  "length c = 1 \<Longrightarrow> (e @ cs @ c @ [tm]) ! (length (e @ cs @ c @ [tm]) - 2) = hd c"
  by (cases c) (simp_all add: nth_append)

lemma row_time: "(e @ cs @ c @ [tm]) ! (length (e @ cs @ c @ [tm]) - 1) = tm"
  by (simp add: nth_append)

lemma row_x:
  "length c = 1 \<Longrightarrow> length cs = n \<Longrightarrow>
     take (length (e @ cs @ c @ [tm]) - (n + 2)) (e @ cs @ c @ [tm]) = e"
  by simp

lemma row_u:
  "length c = 1 \<Longrightarrow> length cs = n \<Longrightarrow>
     drop (length (e @ cs @ c @ [tm]) - (n + 2))
       (take (length (e @ cs @ c @ [tm]) - 2) (e @ cs @ c @ [tm])) = cs"
  by simp

lemma rollout_Inr:
  assumes "rollout mjx_make_data mjx_step random_split ctx net key x_init = Inr (x, u, costs, t)"
  obtains dx0 where
    "set_init mjx_make_data mjx_step (mx (cfg ctx)) x_init = Inr dx0"
    "1 \<le> nsteps (cfg ctx)"
    "x = x_init # map (\<lambda>row. take (length row - (nu (mx (cfg ctx)) + 2)) row)
           (snd (scan (step mjx_step random_split ctx net) (dx0, key) (nat (nsteps (cfg ctx) - 1))))"
    "u = map (\<lambda>row. drop (length row - (nu (mx (cfg ctx)) + 2)) (take (length row - 2) row))
           (snd (scan (step mjx_step random_split ctx net) (dx0, key) (nat (nsteps (cfg ctx) - 1))))"
    "costs = map (\<lambda>row. row ! (length row - 2))
           (snd (scan (step mjx_step random_split ctx net) (dx0, key) (nat (nsteps (cfg ctx) - 1))))
         @ [terminal_cost (cbs ctx) (mx (cfg ctx))
              (fst (fst (scan (step mjx_step random_split ctx net) (dx0, key)
                 (nat (nsteps (cfg ctx) - 1)))))]"
    "t = dt (cfg ctx) # map (\<lambda>row. row ! (length row - 1))
           (snd (scan (step mjx_step random_split ctx net) (dx0, key) (nat (nsteps (cfg ctx) - 1))))"
  using assms
  unfolding rollout_def Let_def lax_scan_def concatenate_rows_def
  by (auto simp: rbind_eq_Inr split: if_splits prod.splits)

lemma rollout_carry_eq:
  "set_init mjx_make_data mjx_step (mx (cfg ctx)) x_init = Inr dx0 \<Longrightarrow>
   rollout_carry mjx_make_data mjx_step random_split ctx net key x_init k
     = Inr (fst (scan (step mjx_step random_split ctx net) (dx0, key) k))"
  by (simp add: rollout_carry_def)

text \<open>What the scan emits at iteration \<open>k\<close>, in terms of the carries.\<close>

lemma rollout_rows:
  assumes r: "rollout mjx_make_data mjx_step random_split ctx net key x_init = Inr (x, u, costs, t)"
    and k: "int k < nsteps (cfg ctx) - 1"
  shows "\<exists>carry carry'.
           rollout_carry mjx_make_data mjx_step random_split ctx net key x_init k = Inr carry
         \<and> rollout_carry mjx_make_data mjx_step random_split ctx net key x_init (Suc k) = Inr carry'
         \<and> fst carry' = mjx_step (mx (cfg ctx)) (controlled random_split ctx net carry)
         \<and> cost_fn ctx (mx (cfg ctx)) (controlled random_split ctx net carry) = [costs ! k]
         \<and> t ! Suc k = time (fst carry')
         \<and> (length (ctrl (fst carry')) = nu (mx (cfg ctx)) \<longrightarrow>
               x ! Suc k = state_encoder (cbs ctx) (mx (cfg ctx)) (fst carry')
             \<and> u ! k = ctrl (fst carry'))"
proof -
  let ?f = "step mjx_step random_split ctx net"
  let ?H = "nat (nsteps (cfg ctx) - 1)"
  from r obtain dx0 where
    init: "set_init mjx_make_data mjx_step (mx (cfg ctx)) x_init = Inr dx0"
    and x: "x = x_init # map (\<lambda>row. take (length row - (nu (mx (cfg ctx)) + 2)) row)
           (snd (scan ?f (dx0, key) ?H))"
    and u: "u = map (\<lambda>row. drop (length row - (nu (mx (cfg ctx)) + 2)) (take (length row - 2) row))
           (snd (scan ?f (dx0, key) ?H))"
    and costs: "costs = map (\<lambda>row. row ! (length row - 2)) (snd (scan ?f (dx0, key) ?H))
         @ [terminal_cost (cbs ctx) (mx (cfg ctx)) (fst (fst (scan ?f (dx0, key) ?H)))]"
    and t: "t = dt (cfg ctx) # map (\<lambda>row. row ! (length row - 1)) (snd (scan ?f (dx0, key) ?H))"
    by (rule rollout_Inr)
  from k have kH: "k < ?H" by simp
  let ?c = "fst (scan ?f (dx0, key) k)"
  let ?c' = "fst (scan ?f (dx0, key) (Suc k))"
  let ?row = "snd (scan ?f (dx0, key) ?H) ! k"
  have c': "?c' = fst (?f ?c)" by (rule scan_fst_Suc)
  have row: "?row = state_encoder (cbs ctx) (mx (cfg ctx)) (fst ?c') @ ctrl (fst ?c')
        @ cost_fn ctx (mx (cfg ctx)) (controlled random_split ctx net ?c) @ [time (fst ?c')]"
    unfolding scan_nth[OF kH] c' by (rule step_snd)
  have one: "length (cost_fn ctx (mx (cfg ctx)) (controlled random_split ctx net ?c)) = 1"
    by simp
  have "costs ! k = ?row ! (length ?row - 2)"
    using kH by (simp add: costs nth_append)
  also have "\<dots> = hd (cost_fn ctx (mx (cfg ctx)) (controlled random_split ctx net ?c))"
    unfolding row by (rule row_cost[OF one])
  finally have cost: "cost_fn ctx (mx (cfg ctx)) (controlled random_split ctx net ?c) = [costs ! k]"
    by (simp add: cost_fn_def Let_def)
  have "t ! Suc k = ?row ! (length ?row - 1)"
    using kH by (simp add: t)
  also have "\<dots> = time (fst ?c')"
    unfolding row by (rule row_time)
  finally have tm: "t ! Suc k = time (fst ?c')" .
  have xu: "x ! Suc k = state_encoder (cbs ctx) (mx (cfg ctx)) (fst ?c') \<and> u ! k = ctrl (fst ?c')"
    if len: "length (ctrl (fst ?c')) = nu (mx (cfg ctx))"
  proof -
    have "x ! Suc k = take (length ?row - (nu (mx (cfg ctx)) + 2)) ?row"
      using kH by (simp add: x)
    also have "\<dots> = state_encoder (cbs ctx) (mx (cfg ctx)) (fst ?c')"
      unfolding row by (rule row_x[OF one len])
    finally have 1: "x ! Suc k = state_encoder (cbs ctx) (mx (cfg ctx)) (fst ?c')" .
    have "u ! k = drop (length ?row - (nu (mx (cfg ctx)) + 2)) (take (length ?row - 2) ?row)"
      using kH by (simp add: u)
    also have "\<dots> = ctrl (fst ?c')"
      unfolding row by (rule row_u[OF one len])
    finally show ?thesis using 1 by simp
  qed
  have "fst ?c' = mjx_step (mx (cfg ctx)) (controlled random_split ctx net ?c)"
    unfolding c' by (rule step_fst)
  with cost tm xu show ?thesis
    unfolding rollout_carry_eq[OF init] by blast
qed

lemma rollout_ends:
  assumes r: "rollout mjx_make_data mjx_step random_split ctx net key x_init = Inr (x, u, costs, t)"
  shows "1 \<le> nsteps (cfg ctx)"
    and "length x = nat (nsteps (cfg ctx))" and "length u = nat (nsteps (cfg ctx) - 1)"
    and "length costs = nat (nsteps (cfg ctx))" and "length t = nat (nsteps (cfg ctx))"
    and "x ! 0 = x_init" and "t ! 0 = dt (cfg ctx)"
    and "\<exists>carry. rollout_carry mjx_make_data mjx_step random_split ctx net key x_init
                   (nat (nsteps (cfg ctx) - 1)) = Inr carry
           \<and> costs ! nat (nsteps (cfg ctx) - 1)
               = terminal_cost (cbs ctx) (mx (cfg ctx)) (fst carry)"
    and "\<exists>q v. at_all_set (qpos (mjx_make_data (mx (cfg ctx)))) (take (nq (mx (cfg ctx))) x_init) = Inr q
           \<and> at_all_set (qvel (mjx_make_data (mx (cfg ctx)))) (drop (nq (mx (cfg ctx))) x_init) = Inr v
           \<and> rollout_carry mjx_make_data mjx_step random_split ctx net key x_init 0
               = Inr (mjx_step (mx (cfg ctx))
                        ((mjx_make_data (mx (cfg ctx))) \<lparr> qpos := q, qvel := v \<rparr>), key)"
proof -
  let ?f = "step mjx_step random_split ctx net"
  let ?H = "nat (nsteps (cfg ctx) - 1)"
  from r obtain dx0 where
    init: "set_init mjx_make_data mjx_step (mx (cfg ctx)) x_init = Inr dx0"
    and n: "1 \<le> nsteps (cfg ctx)"
    and x: "x = x_init # map (\<lambda>row. take (length row - (nu (mx (cfg ctx)) + 2)) row)
           (snd (scan ?f (dx0, key) ?H))"
    and u: "u = map (\<lambda>row. drop (length row - (nu (mx (cfg ctx)) + 2)) (take (length row - 2) row))
           (snd (scan ?f (dx0, key) ?H))"
    and costs: "costs = map (\<lambda>row. row ! (length row - 2)) (snd (scan ?f (dx0, key) ?H))
         @ [terminal_cost (cbs ctx) (mx (cfg ctx)) (fst (fst (scan ?f (dx0, key) ?H)))]"
    and t: "t = dt (cfg ctx) # map (\<lambda>row. row ! (length row - 1)) (snd (scan ?f (dx0, key) ?H))"
    by (rule rollout_Inr)
  show "1 \<le> nsteps (cfg ctx)" by (rule n)
  from n have S: "Suc ?H = nat (nsteps (cfg ctx))" by simp
  show "length x = nat (nsteps (cfg ctx))" by (simp add: x S)
  show "length u = ?H" by (simp add: u)
  show "length costs = nat (nsteps (cfg ctx))" by (simp add: costs S)
  show "length t = nat (nsteps (cfg ctx))" by (simp add: t S)
  show "x ! 0 = x_init" by (simp add: x)
  show "t ! 0 = dt (cfg ctx)" by (simp add: t)
  show "\<exists>carry. rollout_carry mjx_make_data mjx_step random_split ctx net key x_init ?H = Inr carry
           \<and> costs ! ?H = terminal_cost (cbs ctx) (mx (cfg ctx)) (fst carry)"
    unfolding rollout_carry_eq[OF init] by (simp add: costs nth_append)
  from init show "\<exists>q v. at_all_set (qpos (mjx_make_data (mx (cfg ctx)))) (take (nq (mx (cfg ctx))) x_init) = Inr q
           \<and> at_all_set (qvel (mjx_make_data (mx (cfg ctx)))) (drop (nq (mx (cfg ctx))) x_init) = Inr v
           \<and> rollout_carry mjx_make_data mjx_step random_split ctx net key x_init 0
               = Inr (mjx_step (mx (cfg ctx))
                        ((mjx_make_data (mx (cfg ctx))) \<lparr> qpos := q, qvel := v \<rparr>), key)"
    unfolding rollout_carry_eq[OF init]
    by (auto simp: set_init_def Let_def rbind_eq_Inr)
qed

text \<open>
  Claim C3. A rollout whose scan runs \<open>H\<close> steps (the configured \<^verbatim>\<open>nsteps\<close> minus one)
  returns \<open>H + 1\<close> costs: entry \<open>k < H\<close> is the running cost of iteration \<open>k\<close>, taken from
  the carry after the controller has acted, and the last entry is the terminal cost of the
  final state.
\<close>

theorem C3_cost_count:
  assumes r: "rollout mjx_make_data mjx_step random_split ctx net key x_init = Inr (x, u, costs, t)"
    and H: "nsteps (cfg ctx) - 1 = int H"
  shows "length costs = H + 1
       \<and> (\<forall>k < H. \<exists>carry.
             rollout_carry mjx_make_data mjx_step random_split ctx net key x_init k = Inr carry
           \<and> cost_fn ctx (mx (cfg ctx)) (controlled random_split ctx net carry) = [costs ! k])
       \<and> (\<exists>carry.
             rollout_carry mjx_make_data mjx_step random_split ctx net key x_init H = Inr carry
           \<and> costs ! H = terminal_cost (cbs ctx) (mx (cfg ctx)) (fst carry))"
proof (intro conjI allI impI)
  from H have nH: "nat (nsteps (cfg ctx) - 1) = H" and n: "nat (nsteps (cfg ctx)) = H + 1"
    by simp_all
  show "length costs = H + 1"
    using rollout_ends(4)[OF r] n by simp
  show "\<exists>carry. rollout_carry mjx_make_data mjx_step random_split ctx net key x_init H = Inr carry
           \<and> costs ! H = terminal_cost (cbs ctx) (mx (cfg ctx)) (fst carry)"
    using rollout_ends(8)[OF r] unfolding nH .
next
  fix k assume "k < H"
  with H have "int k < nsteps (cfg ctx) - 1" by simp
  from rollout_rows[OF r this]
  show "\<exists>carry. rollout_carry mjx_make_data mjx_step random_split ctx net key x_init k = Inr carry
           \<and> cost_fn ctx (mx (cfg ctx)) (controlled random_split ctx net carry) = [costs ! k]"
    by blast
qed

text \<open>
  Claim C9. Two batches of initial states that differ only in element \<open>b\<close> give, for every
  other batch element, the same trajectory, controls, costs and times.
\<close>

theorem C9_batch_independence:
  assumes r1: "controlled_simulate mjx_make_data mjx_step random_split xs ctx net key = Inr r1"
    and r2: "controlled_simulate mjx_make_data mjx_step random_split ys ctx net key = Inr r2"
    and len: "length xs = length ys"
    and same: "\<forall>j < length xs. j \<noteq> b \<longrightarrow> xs ! j = ys ! j"
  shows "length r1 = length xs \<and> length r2 = length xs
       \<and> (\<forall>j < length xs. j \<noteq> b \<longrightarrow> r1 ! j = r2 ! j)"
proof -
  note v1 = vmap_eq_Inr[OF r1[unfolded controlled_simulate_def]]
  note v2 = vmap_eq_Inr[OF r2[unfolded controlled_simulate_def]]
  have "r1 ! j = r2 ! j" if j: "j < length xs" "j \<noteq> b" for j
  proof -
    from v1 j have "rollout mjx_make_data mjx_step random_split ctx net key (xs ! j) = Inr (r1 ! j)"
      by simp
    moreover from v2 j len
    have "rollout mjx_make_data mjx_step random_split ctx net key (ys ! j) = Inr (r2 ! j)"
      by simp
    moreover from same j have "xs ! j = ys ! j" by simp
    ultimately show ?thesis by simp
  qed
  with v1 v2 len show ?thesis by simp
qed

text \<open>
  Claim C10, amended. The first recorded state is \<open>x_init\<close> itself and the first recorded
  time is \<open>dt\<close>, while the scan starts from \<open>x_init\<close> advanced by one engine step. At every
  index \<open>j\<close> below the last, the cost is taken from the carry of iteration \<open>j\<close> after the
  controller has acted, the control is read from the state the engine steps to from there,
  and that state is the next carry. At every index \<open>j > 0\<close>, up to and including the last,
  the recorded state and time are the encoding and the time of the carry of iteration \<open>j\<close>
  itself; the last cost is the terminal cost of the last carry. So only at index \<open>0\<close> is the
  carry one engine step ahead of the recorded state, and the state recorded at index \<open>1\<close>
  lies two engine steps after \<open>x_init\<close>.
\<close>

theorem C10_trajectory_alignment:
  assumes r: "rollout mjx_make_data mjx_step random_split ctx net key x_init = Inr (x, u, costs, t)"
  shows "x ! 0 = x_init \<and> t ! 0 = dt (cfg ctx)
       \<and> length x = nat (nsteps (cfg ctx)) \<and> length t = nat (nsteps (cfg ctx))
       \<and> length costs = nat (nsteps (cfg ctx)) \<and> length u = nat (nsteps (cfg ctx) - 1)
       \<and> (\<exists>q v. at_all_set (qpos (mjx_make_data (mx (cfg ctx)))) (take (nq (mx (cfg ctx))) x_init) = Inr q
             \<and> at_all_set (qvel (mjx_make_data (mx (cfg ctx)))) (drop (nq (mx (cfg ctx))) x_init) = Inr v
             \<and> rollout_carry mjx_make_data mjx_step random_split ctx net key x_init 0
                 = Inr (mjx_step (mx (cfg ctx))
                          ((mjx_make_data (mx (cfg ctx))) \<lparr> qpos := q, qvel := v \<rparr>), key))
       \<and> (\<forall>j. int j \<le> nsteps (cfg ctx) - 1 \<longrightarrow>
             (\<exists>carry.
                 rollout_carry mjx_make_data mjx_step random_split ctx net key x_init j = Inr carry
               \<and> (0 < j \<longrightarrow>
                     t ! j = time (fst carry)
                   \<and> (length (ctrl (fst carry)) = nu (mx (cfg ctx)) \<longrightarrow>
                        x ! j = state_encoder (cbs ctx) (mx (cfg ctx)) (fst carry)))
               \<and> (int j < nsteps (cfg ctx) - 1 \<longrightarrow>
                     cost_fn ctx (mx (cfg ctx)) (controlled random_split ctx net carry) = [costs ! j]
                   \<and> (length (ctrl (mjx_step (mx (cfg ctx)) (controlled random_split ctx net carry)))
                         = nu (mx (cfg ctx)) \<longrightarrow>
                       u ! j = ctrl (mjx_step (mx (cfg ctx)) (controlled random_split ctx net carry)))
                   \<and> (\<exists>carry'.
                         rollout_carry mjx_make_data mjx_step random_split ctx net key x_init (Suc j)
                           = Inr carry'
                       \<and> fst carry' = mjx_step (mx (cfg ctx)) (controlled random_split ctx net carry)))
               \<and> (int j = nsteps (cfg ctx) - 1 \<longrightarrow>
                     costs ! j = terminal_cost (cbs ctx) (mx (cfg ctx)) (fst carry))))"
proof (intro conjI allI impI)
  show "x ! 0 = x_init" by (rule rollout_ends(6)[OF r])
  show "t ! 0 = dt (cfg ctx)" by (rule rollout_ends(7)[OF r])
  show "length x = nat (nsteps (cfg ctx))" by (rule rollout_ends(2)[OF r])
  show "length t = nat (nsteps (cfg ctx))" by (rule rollout_ends(5)[OF r])
  show "length costs = nat (nsteps (cfg ctx))" by (rule rollout_ends(4)[OF r])
  show "length u = nat (nsteps (cfg ctx) - 1)" by (rule rollout_ends(3)[OF r])
  show "\<exists>q v. at_all_set (qpos (mjx_make_data (mx (cfg ctx)))) (take (nq (mx (cfg ctx))) x_init) = Inr q
             \<and> at_all_set (qvel (mjx_make_data (mx (cfg ctx)))) (drop (nq (mx (cfg ctx))) x_init) = Inr v
             \<and> rollout_carry mjx_make_data mjx_step random_split ctx net key x_init 0
                 = Inr (mjx_step (mx (cfg ctx))
                          ((mjx_make_data (mx (cfg ctx))) \<lparr> qpos := q, qvel := v \<rparr>), key)"
    by (rule rollout_ends(9)[OF r])
next
  fix j assume j: "int j \<le> nsteps (cfg ctx) - 1"
  let ?f = "step mjx_step random_split ctx net"
  from r obtain dx0 where
    init: "set_init mjx_make_data mjx_step (mx (cfg ctx)) x_init = Inr dx0"
    by (rule rollout_Inr)
  let ?C = "\<lambda>k. fst (scan ?f (dx0, key) k)"
  note carry = rollout_carry_eq[OF init, of random_split net key]
  have prev: "t ! j = time (fst (?C j))
      \<and> (length (ctrl (fst (?C j))) = nu (mx (cfg ctx)) \<longrightarrow>
            x ! j = state_encoder (cbs ctx) (mx (cfg ctx)) (fst (?C j)))" if "0 < j"
  proof -
    from that obtain i where i: "j = Suc i" by (cases j) auto
    with j have "int i < nsteps (cfg ctx) - 1" by simp
    from rollout_rows[OF r this] show ?thesis
      unfolding i carry by auto
  qed
  have here: "cost_fn ctx (mx (cfg ctx)) (controlled random_split ctx net (?C j)) = [costs ! j]
      \<and> (length (ctrl (mjx_step (mx (cfg ctx)) (controlled random_split ctx net (?C j))))
            = nu (mx (cfg ctx)) \<longrightarrow>
          u ! j = ctrl (mjx_step (mx (cfg ctx)) (controlled random_split ctx net (?C j))))
      \<and> (\<exists>carry'.
            rollout_carry mjx_make_data mjx_step random_split ctx net key x_init (Suc j) = Inr carry'
          \<and> fst carry' = mjx_step (mx (cfg ctx)) (controlled random_split ctx net (?C j)))"
    if "int j < nsteps (cfg ctx) - 1"
    using rollout_rows[OF r that] unfolding carry by auto
  have last: "costs ! j = terminal_cost (cbs ctx) (mx (cfg ctx)) (fst (?C j))"
    if "int j = nsteps (cfg ctx) - 1"
  proof -
    from that have "nat (nsteps (cfg ctx) - 1) = j" by simp
    with rollout_ends(8)[OF r] show ?thesis
      unfolding carry by auto
  qed
  from prev here last
  show "\<exists>carry.
          rollout_carry mjx_make_data mjx_step random_split ctx net key x_init j = Inr carry
        \<and> (0 < j \<longrightarrow>
              t ! j = time (fst carry)
            \<and> (length (ctrl (fst carry)) = nu (mx (cfg ctx)) \<longrightarrow>
                 x ! j = state_encoder (cbs ctx) (mx (cfg ctx)) (fst carry)))
        \<and> (int j < nsteps (cfg ctx) - 1 \<longrightarrow>
              cost_fn ctx (mx (cfg ctx)) (controlled random_split ctx net carry) = [costs ! j]
            \<and> (length (ctrl (mjx_step (mx (cfg ctx)) (controlled random_split ctx net carry)))
                  = nu (mx (cfg ctx)) \<longrightarrow>
                u ! j = ctrl (mjx_step (mx (cfg ctx)) (controlled random_split ctx net carry)))
            \<and> (\<exists>carry'.
                  rollout_carry mjx_make_data mjx_step random_split ctx net key x_init (Suc j)
                    = Inr carry'
                \<and> fst carry' = mjx_step (mx (cfg ctx)) (controlled random_split ctx net carry)))
        \<and> (int j = nsteps (cfg ctx) - 1 \<longrightarrow>
              costs ! j = terminal_cost (cbs ctx) (mx (cfg ctx)) (fst carry))"
    unfolding carry by (intro exI[of _ "?C j"]) blast
qed

lemmas example_defs =
  example_ctx_def example_cfg_def example_cbs_def example_model_def
  example_make_data_def example_step_def example_split_def example_policy_def

lemma ex_rollout:
  "rollout example_make_data example_step example_split example_ctx () () [1, 0]
     = Inr ([[1, 0], [1, -1], [0, -2]], [[-1], [-1]], [2, 2, 0], [1, 2, 3])"
  by (simp add: rollout_def set_init_def at_all_set_def lax_scan_def step_def cost_fn_def
      concatenate_rows_def example_defs numeral_2_eq_2 Let_def)

lemma ex_rollout2:
  "rollout example_make_data example_step example_split example_ctx () () [2, 1]
     = Inr ([[2, 1], [4, -2], [2, -6]], [[-3], [-4]], [18, 32, 40], [1, 2, 3])"
  by (simp add: rollout_def set_init_def at_all_set_def lax_scan_def step_def cost_fn_def
      concatenate_rows_def example_defs numeral_2_eq_2 Let_def)

lemma ex_rollout3:
  "rollout example_make_data example_step example_split example_ctx () () [0, 0]
     = Inr ([[0, 0], [0, 0], [0, 0]], [[0], [0]], [0, 0, 0], [1, 2, 3])"
  by (simp add: rollout_def set_init_def at_all_set_def lax_scan_def step_def cost_fn_def
      concatenate_rows_def example_defs numeral_2_eq_2 Let_def)

lemma ex_simulate1:
  "controlled_simulate example_make_data example_step example_split [[1, 0], [2, 1]] example_ctx () ()
     = Inr [([[1, 0], [1, -1], [0, -2]], [[-1], [-1]], [2, 2, 0], [1, 2, 3]),
            ([[2, 1], [4, -2], [2, -6]], [[-3], [-4]], [18, 32, 40], [1, 2, 3])]"
  by (simp add: controlled_simulate_def ex_rollout ex_rollout2)

lemma ex_simulate2:
  "controlled_simulate example_make_data example_step example_split [[1, 0], [0, 0]] example_ctx () ()
     = Inr [([[1, 0], [1, -1], [0, -2]], [[-1], [-1]], [2, 2, 0], [1, 2, 3]),
            ([[0, 0], [0, 0], [0, 0]], [[0], [0]], [0, 0, 0], [1, 2, 3])]"
  by (simp add: controlled_simulate_def ex_rollout ex_rollout3)

lemma ex_carry1:
  "rollout_carry example_make_data example_step example_split example_ctx () () [1, 0] 1
     = Inr (\<lparr> qpos = [1], qvel = [-1], ctrl = [-1], time = 2 \<rparr>, ())"
  by (simp add: rollout_carry_def set_init_def at_all_set_def step_def cost_fn_def
      example_defs Let_def)

lemma ex_carry2:
  "rollout_carry example_make_data example_step example_split example_ctx () () [1, 0] 2
     = Inr (\<lparr> qpos = [0], qvel = [-2], ctrl = [-1], time = 3 \<rparr>, ())"
  by (simp add: rollout_carry_def set_init_def at_all_set_def step_def cost_fn_def
      example_defs Let_def numeral_2_eq_2)

theorem C3_witness:
  "rollout example_make_data example_step example_split example_ctx () () [1, 0]
     = Inr ([[1, 0], [1, -1], [0, -2]], [[-1], [-1]], [2, 2, 0], [1, 2, 3])
   \<and> nsteps (cfg example_ctx) - 1 = int 2
   \<and> length [2, 2, 0 :: real] = 2 + 1
   \<and> (\<exists>carry. rollout_carry example_make_data example_step example_split example_ctx () () [1, 0] 2
                 = Inr carry
         \<and> [2, 2, 0] ! 2 = terminal_cost (cbs example_ctx) (mx (cfg example_ctx)) (fst carry))"
proof -
  have H: "nsteps (cfg example_ctx) - 1 = int 2"
    by (simp add: example_ctx_def example_cfg_def)
  note t = C3_cost_count [OF ex_rollout H]
  show ?thesis
    by (intro conjI ex_rollout H t[THEN conjunct1] t[THEN conjunct2, THEN conjunct2])
qed

theorem C9_witness:
  "\<exists>r1 r2.
     controlled_simulate example_make_data example_step example_split [[1, 0], [2, 1]] example_ctx () ()
       = Inr r1
   \<and> controlled_simulate example_make_data example_step example_split [[1, 0], [0, 0]] example_ctx () ()
       = Inr r2
   \<and> length r1 = 2 \<and> length r2 = 2 \<and> r1 ! 0 = r2 ! 0"
proof -
  have len: "length [[1, 0], [2, 1 :: real]] = length [[1, 0], [0, 0 :: real]]"
    by simp
  have same: "\<forall>j < length [[1, 0], [2, 1 :: real]]. j \<noteq> 1 \<longrightarrow>
      [[1, 0], [2, 1 :: real]] ! j = [[1, 0], [0, 0]] ! j"
    by (simp add: nth_Cons split: nat.splits)
  note t = C9_batch_independence [OF ex_simulate1 ex_simulate2 len same]
  note l1 = t[THEN conjunct1]
  note l2 = t[THEN conjunct2, THEN conjunct1]
  have z: "(0::nat) < length [[1, 0], [2, 1 :: real]]" "(0::nat) \<noteq> 1"
    by simp_all
  note e = t[THEN conjunct2, THEN conjunct2, rule_format, OF z]
  from l1 l2 e ex_simulate1 ex_simulate2 show ?thesis
    by (intro exI conjI) (assumption | simp)+
qed

theorem C10_witness:
  "rollout example_make_data example_step example_split example_ctx () () [1, 0]
     = Inr ([[1, 0], [1, -1], [0, -2]], [[-1], [-1]], [2, 2, 0], [1, 2, 3])
   \<and> (\<exists>carry. rollout_carry example_make_data example_step example_split example_ctx () () [1, 0] 1
                 = Inr carry
         \<and> cost_fn example_ctx (mx (cfg example_ctx)) (controlled example_split example_ctx () carry)
             = [[2, 2, 0] ! 1]
         \<and> [1, 2, 3] ! 1 = time (fst carry))
   \<and> (\<exists>carry. rollout_carry example_make_data example_step example_split example_ctx () () [1, 0] 2
                 = Inr carry
         \<and> [1, 2, 3] ! 2 = time (fst carry)
         \<and> [[1, 0], [1, -1], [0, -2]] ! 2
             = state_encoder (cbs example_ctx) (mx (cfg example_ctx)) (fst carry)
         \<and> [2, 2, 0] ! 2 = terminal_cost (cbs example_ctx) (mx (cfg example_ctx)) (fst carry))"
proof -
  note t = C10_trajectory_alignment [OF ex_rollout]
  note all = t[THEN conjunct2, THEN conjunct2, THEN conjunct2, THEN conjunct2, THEN conjunct2,
      THEN conjunct2, THEN conjunct2, rule_format]
  have j1: "int 1 \<le> nsteps (cfg example_ctx) - 1" and j1': "int 1 < nsteps (cfg example_ctx) - 1"
    and j2: "int 2 \<le> nsteps (cfg example_ctx) - 1" and j2': "int 2 = nsteps (cfg example_ctx) - 1"
    by (simp_all add: example_ctx_def example_cfg_def)
  from all[OF j1] j1' have a:
    "\<exists>carry. rollout_carry example_make_data example_step example_split example_ctx () () [1, 0] 1
                 = Inr carry
         \<and> cost_fn example_ctx (mx (cfg example_ctx)) (controlled example_split example_ctx () carry)
             = [[2, 2, 0] ! 1]
         \<and> [1, 2, 3] ! 1 = time (fst carry)"
    by auto
  from all[OF j2] obtain carry where
    c: "rollout_carry example_make_data example_step example_split example_ctx () () [1, 0] 2
          = Inr carry"
    and tm: "[1, 2, 3] ! 2 = time (fst carry)"
    and xs: "length (ctrl (fst carry)) = nu (mx (cfg example_ctx)) \<longrightarrow>
        [[1, 0], [1, -1], [0, -2]] ! 2
          = state_encoder (cbs example_ctx) (mx (cfg example_ctx)) (fst carry)"
    and tc: "int 2 = nsteps (cfg example_ctx) - 1 \<longrightarrow>
        [2, 2, 0] ! 2 = terminal_cost (cbs example_ctx) (mx (cfg example_ctx)) (fst carry)"
    by auto
  from c ex_carry2 have "carry = (\<lparr> qpos = [0], qvel = [-2], ctrl = [-1], time = 3 \<rparr>, ())"
    by simp
  then have "length (ctrl (fst carry)) = nu (mx (cfg example_ctx))"
    by (simp add: example_ctx_def example_cfg_def example_model_def)
  with xs tc j2' c tm have b:
    "\<exists>carry. rollout_carry example_make_data example_step example_split example_ctx () () [1, 0] 2
                 = Inr carry
         \<and> [1, 2, 3] ! 2 = time (fst carry)
         \<and> [[1, 0], [1, -1], [0, -2]] ! 2
             = state_encoder (cbs example_ctx) (mx (cfg example_ctx)) (fst carry)
         \<and> [2, 2, 0] ! 2 = terminal_cost (cbs example_ctx) (mx (cfg example_ctx)) (fst carry)"
    by blast
  from ex_rollout a b show ?thesis by (intro conjI)
qed

text \<open>The claim as stated fails at index \<open>1\<close> of the example rollout: the state recorded
  there is the encoding of the carry of iteration \<open>1\<close>, the cost and the time recorded there
  are those of that carry, and the state one engine step ahead has another cost and time.\<close>

theorem C10_counterexample:
  "rollout example_make_data example_step example_split example_ctx () () [1, 0]
     = Inr ([[1, 0], [1, -1], [0, -2]], [[-1], [-1]], [2, 2, 0], [1, 2, 3])
   \<and> rollout_carry example_make_data example_step example_split example_ctx () () [1, 0] 1
     = Inr (\<lparr> qpos = [1], qvel = [-1], ctrl = [-1], time = 2 \<rparr>, ())
   \<and> state_encoder (cbs example_ctx) (mx (cfg example_ctx))
        \<lparr> qpos = [1], qvel = [-1], ctrl = [-1], time = 2 \<rparr> = [1, -1]
   \<and> cost_fn example_ctx (mx (cfg example_ctx))
        (controlled example_split example_ctx ()
           (\<lparr> qpos = [1], qvel = [-1], ctrl = [-1], time = 2 \<rparr>, ())) = [2]
   \<and> time \<lparr> qpos = [1], qvel = [-1], ctrl = [-1], time = 2 \<rparr> = 2
   \<and> cost_fn example_ctx (mx (cfg example_ctx))
        (controlled example_split example_ctx ()
           (example_step (mx (cfg example_ctx))
              (controlled example_split example_ctx ()
                 (\<lparr> qpos = [1], qvel = [-1], ctrl = [-1], time = 2 \<rparr>, ())), ())) \<noteq> [2]
   \<and> time (example_step (mx (cfg example_ctx))
              (controlled example_split example_ctx ()
                 (\<lparr> qpos = [1], qvel = [-1], ctrl = [-1], time = 2 \<rparr>, ()))) \<noteq> 2"
  by (intro conjI ex_rollout ex_carry1)
    (simp_all add: cost_fn_def controlled_def example_defs Let_def)

text \<open>
  Claim C8. Constructing a context fails with an assertion error exactly when some
  eigenvalue that the eigenvalue routine returns for \<open>R\<close> is not positive, and succeeds
  exactly when all of them are positive.
\<close>

theorem C8_context_validation:
  "(Context_init eigh_values c b = Inl AssertionError
      \<longleftrightarrow> (\<exists>w \<in> set (eigh_values (R c)). w \<le> 0))
   \<and> (Context_init eigh_values c b = Inr \<lparr> cfg = c, cbs = b \<rparr>
      \<longleftrightarrow> (\<forall>w \<in> set (eigh_values (R c)). 0 < w))"
  by (auto simp: Context_init_def list_all_iff not_less)

theorem C8_witness:
  "Context_init diag_eigh example_cfg example_cbs = Inr \<lparr> cfg = example_cfg, cbs = example_cbs \<rparr>
   \<and> Context_init diag_eigh (example_cfg \<lparr> R := [[- 1]] \<rparr>) example_cbs = Inl AssertionError"
proof -
  have pos: "\<forall>w \<in> set (diag_eigh (R example_cfg)). 0 < w"
    by (simp add: diag_eigh_def example_cfg_def)
  have neg: "\<exists>w \<in> set (diag_eigh (R (example_cfg \<lparr> R := [[- 1]] \<rparr>))). w \<le> 0"
    by (simp add: diag_eigh_def)
  have a: "Context_init diag_eigh example_cfg example_cbs
      = Inr \<lparr> cfg = example_cfg, cbs = example_cbs \<rparr>"
    using pos by (rule iffD2[OF conjunct2[OF C8_context_validation]])
  have b: "Context_init diag_eigh (example_cfg \<lparr> R := [[- 1]] \<rparr>) example_cbs = Inl AssertionError"
    using neg by (rule iffD2[OF conjunct1[OF C8_context_validation]])
  from a b show ?thesis by (rule conjI)
qed

end
